theory Spec2Isabelle
  imports Complex_Main
begin

section \<open>Numbers, errors and tensors\<close>

text \<open>
  The notebooks are scripts over the PyTorch library. The library's operations are not
  part of the repository; each one is written here after the behaviour the notebooks'
  own text and the library's documentation describe, and is marked as such. What the
  repository authors is the order in which these operations are called: the network
  definitions, the training loops and the validation loops.

  The numbers that a forward pass, a loss and an accuracy compute are taken as exact
  reals. What an optimizer stores is rounded to 32-bit floating point, as the section on
  rounding below defines it: whether a stored parameter moves at all is decided there.
  The one float the loops can meet that has no real value is the mean of an empty tensor,
  which is \<open>nan\<close>.
\<close>

datatype scalar = Num real | NaN

datatype error =
    SizeMismatch          \<comment> \<open>RuntimeError/ValueError: shapes do not fit\<close>
  | TargetOutOfBounds     \<comment> \<open>IndexError: a label is not a class index of the output\<close>
  | IndexOutOfRange       \<comment> \<open>RuntimeError: topk asked for more entries than a row has\<close>
  | MeanNotImplemented    \<comment> \<open>RuntimeError: mean is not implemented for type torch.ByteTensor\<close>
  | ZeroDivisionError
  | NameError
  | NoGradFn              \<comment> \<open>RuntimeError: the tensor does not require grad\<close>

text \<open>
  A vector is the list of its entries; a matrix (a batch of rows, a weight matrix) is the
  list of its rows; an image is the list of its rows of pixels.
\<close>

type_synonym vec = "real list"
type_synonym mat = "real list list"
type_synonym image = "real list list"

fun sadd :: "scalar \<Rightarrow> scalar \<Rightarrow> scalar" where
  "sadd (Num a) (Num b) = Num (a + b)"
| "sadd _ _ = NaN"

definition mean_of :: "real list \<Rightarrow> scalar" where
  "mean_of xs = (if xs = [] then NaN else Num (sum_list xs / real (length xs)))"

text \<open>
  \<open>total / len(loader)\<close>: the accumulators start as the Python number 0 and the loader is
  empty exactly when no batch was added to them, so a zero divisor raises.
\<close>

fun per_batch :: "scalar \<Rightarrow> nat \<Rightarrow> error + scalar" where
  "per_batch s 0 = Inl ZeroDivisionError"
| "per_batch (Num a) n = Inr (Num (a / real n))"
| "per_batch NaN n = Inr NaN"

definition and_then :: "error + 'a \<Rightarrow> ('a \<Rightarrow> error + 'b) \<Rightarrow> error + 'b" where
  "and_then r f = (case r of Inl e \<Rightarrow> Inl e | Inr a \<Rightarrow> f a)"

fun each :: "('a \<Rightarrow> error + 'b) \<Rightarrow> 'a list \<Rightarrow> error + 'b list" where
  "each f [] = Inr []"
| "each f (x # xs) =
     (case f x of Inl e \<Rightarrow> Inl e
      | Inr y \<Rightarrow> (case each f xs of Inl e \<Rightarrow> Inl e | Inr ys \<Rightarrow> Inr (y # ys)))"

subsection \<open>Layers (library operations)\<close>

record linear_layer =
  weight :: mat
  bias :: vec

definition dot :: "vec \<Rightarrow> vec \<Rightarrow> real" where
  "dot u v = sum_list (map2 (*) u v)"

text \<open>\<open>nn.Linear\<close> on one sample: \<open>x W\<^sup>T + b\<close>; the input must have \<open>in_features\<close> entries.\<close>

definition linear_row :: "linear_layer \<Rightarrow> vec \<Rightarrow> error + vec" where
  "linear_row l x =
     (if list_all (\<lambda>r. length r = length x) (weight l) \<and> length (bias l) = length (weight l)
      then Inr (map2 (\<lambda>r b. dot r x + b) (weight l) (bias l))
      else Inl SizeMismatch)"

definition linear_batch :: "linear_layer \<Rightarrow> mat \<Rightarrow> error + mat" where
  "linear_batch l X = each (linear_row l) X"

definition relu :: "mat \<Rightarrow> mat" where
  "relu X = map (map (max 0)) X"

text \<open>\<open>log_softmax\<close> along \<open>dim=1\<close>: every row is shifted by the log of its sum of exponentials.\<close>

definition log_softmax_row :: "vec \<Rightarrow> vec" where
  "log_softmax_row r = map (\<lambda>x. x - ln (sum_list (map exp r))) r"

definition log_softmax :: "mat \<Rightarrow> mat" where
  "log_softmax X = map log_softmax_row X"

text \<open>
  \<open>nn.Dropout(p=0.2)\<close>: in training mode an entry is kept with its value divided by
  \<open>1 - p\<close> or set to zero, as the mask drawn by the random generator says; in evaluation
  mode the input is returned as it is.
\<close>

definition dropout_p :: real where
  "dropout_p = 2 / 10"

definition dropout :: "bool \<Rightarrow> bool list list \<Rightarrow> mat \<Rightarrow> mat" where
  "dropout training keeps X =
     (if training
      then map2 (map2 (\<lambda>keep x. if keep then x / (1 - dropout_p) else 0)) keeps X
      else X)"

text \<open>
  \<open>x.view(x.shape[0], -1)\<close>: every image of the batch becomes one row. On an empty batch
  the \<open>-1\<close> cannot be inferred and the library raises.
\<close>

definition view_flat :: "image list \<Rightarrow> error + mat" where
  "view_flat x = (if x = [] then Inl SizeMismatch else Inr (map concat x))"

subsection \<open>Loss criteria (library operations)\<close>

text \<open>
  \<open>nn.NLLLoss()\<close> with its default mean reduction: the mean over the batch of minus the
  log-probability of the true class.
\<close>

definition NLLLoss :: "mat \<Rightarrow> nat list \<Rightarrow> error + scalar" where
  "NLLLoss output labels =
     (if length output \<noteq> length labels then Inl SizeMismatch
      else if \<not> list_all (\<lambda>(r, l). l < length r) (zip output labels) then Inl TargetOutOfBounds
      else Inr (mean_of (map2 (\<lambda>r l. - (r ! l)) output labels)))"

text \<open>
  \<open>nn.CrossEntropyLoss()\<close>: "This criterion combines nn.LogSoftmax() and nn.NLLLoss() in
  one single class" (Part 3).
\<close>

definition CrossEntropyLoss :: "mat \<Rightarrow> nat list \<Rightarrow> error + scalar" where
  "CrossEntropyLoss logits labels = NLLLoss (log_softmax logits) labels"

section \<open>The networks of the notebooks\<close>

subsection \<open>Part 3: \<open>nn.Sequential\<close>\<close>

datatype layer = Linear linear_layer | ReLU | LogSoftmax

fun apply_layer :: "layer \<Rightarrow> mat \<Rightarrow> error + mat" where
  "apply_layer (Linear l) X = linear_batch l X"
| "apply_layer ReLU X = Inr (relu X)"
| "apply_layer LogSoftmax X = Inr (log_softmax X)"

fun Sequential :: "layer list \<Rightarrow> mat \<Rightarrow> error + mat" where
  "Sequential [] X = Inr X"
| "Sequential (m # ms) X = and_then (apply_layer m X) (Sequential ms)"

text \<open>The network that returns logits (first loss cell of Part 3).\<close>

definition model_logits :: "linear_layer \<Rightarrow> linear_layer \<Rightarrow> linear_layer \<Rightarrow> layer list" where
  "model_logits l1 l2 l3 = [Linear l1, ReLU, Linear l2, ReLU, Linear l3]"

text \<open>The network with a log-softmax output (all later cells of Part 3).\<close>

definition model_logps :: "linear_layer \<Rightarrow> linear_layer \<Rightarrow> linear_layer \<Rightarrow> layer list" where
  "model_logps l1 l2 l3 = [Linear l1, ReLU, Linear l2, ReLU, Linear l3, LogSoftmax]"

definition zero_linear :: "nat \<Rightarrow> nat \<Rightarrow> linear_layer" where
  "zero_linear n_in n_out = \<lparr>weight = replicate n_out (replicate n_in 0), bias = replicate n_out 0\<rparr>"

subsection \<open>Part 5: \<open>Classifier\<close>, without and with dropout\<close>

record classifier =
  fc1 :: linear_layer
  fc2 :: linear_layer
  fc3 :: linear_layer
  fc4 :: linear_layer

definition forward :: "classifier \<Rightarrow> image list \<Rightarrow> error + mat" where
  "forward c x =
     and_then (view_flat x) (\<lambda>x.
     and_then (linear_batch (fc1 c) x) (\<lambda>h. let x = relu h in
     and_then (linear_batch (fc2 c) x) (\<lambda>h. let x = relu h in
     and_then (linear_batch (fc3 c) x) (\<lambda>h. let x = relu h in
     and_then (linear_batch (fc4 c) x) (\<lambda>h. Inr (log_softmax h))))))"

text \<open>
  The second \<open>Classifier\<close> passes each hidden activation through \<open>self.dropout\<close>. The masks
  \<open>m1\<close>, \<open>m2\<close>, \<open>m3\<close> are what the random generator draws in the three calls; \<open>training\<close>
  is the module's mode flag, set by \<open>model.train()\<close> and cleared by \<open>model.eval()\<close>.
\<close>

definition forward_dropout ::
  "bool \<Rightarrow> bool list list \<Rightarrow> bool list list \<Rightarrow> bool list list \<Rightarrow> classifier \<Rightarrow> image list
     \<Rightarrow> error + mat" where
  "forward_dropout training m1 m2 m3 c x =
     and_then (view_flat x) (\<lambda>x.
     and_then (linear_batch (fc1 c) x) (\<lambda>h. let x = dropout training m1 (relu h) in
     and_then (linear_batch (fc2 c) x) (\<lambda>h. let x = dropout training m2 (relu h) in
     and_then (linear_batch (fc3 c) x) (\<lambda>h. let x = dropout training m3 (relu h) in
     and_then (linear_batch (fc4 c) x) (\<lambda>h. Inr (log_softmax h))))))"

subsection \<open>Part 3: the two loss cells\<close>

text \<open>
  Both cells flatten the batch, call the model and hand its output to the criterion: the
  first with the logits network and \<open>nn.CrossEntropyLoss\<close>, the second with the
  log-softmax network and \<open>nn.NLLLoss\<close>.
\<close>

definition loss_cell_logits ::
  "linear_layer \<Rightarrow> linear_layer \<Rightarrow> linear_layer \<Rightarrow> image list \<Rightarrow> nat list \<Rightarrow> error + scalar" where
  "loss_cell_logits l1 l2 l3 images labels =
     and_then (view_flat images) (\<lambda>images.
     and_then (Sequential (model_logits l1 l2 l3) images) (\<lambda>logits.
     CrossEntropyLoss logits labels))"

definition loss_cell_logps ::
  "linear_layer \<Rightarrow> linear_layer \<Rightarrow> linear_layer \<Rightarrow> image list \<Rightarrow> nat list \<Rightarrow> error + scalar" where
  "loss_cell_logps l1 l2 l3 images labels =
     and_then (view_flat images) (\<lambda>images.
     and_then (Sequential (model_logps l1 l2 l3) images) (\<lambda>logits.
     NLLLoss logits labels))"

section \<open>Accuracy of one batch\<close>

text \<open>
  The comparison \<open>top_class == labels\<close> yields a byte tensor, and "\<open>torch.mean\<close> isn't
  implemented for tensors with that type" (Part 5); \<open>equals.type(torch.FloatTensor)\<close>
  converts it to zeros and ones.
\<close>

datatype tensor = ByteTensor "bool list" | FloatTensor "real list"

fun torch_mean :: "tensor \<Rightarrow> error + scalar" where
  "torch_mean (ByteTensor bs) = Inl MeanNotImplemented"
| "torch_mean (FloatTensor xs) = Inr (mean_of xs)"

fun type_float :: "tensor \<Rightarrow> tensor" where
  "type_float (ByteTensor bs) = FloatTensor (map (\<lambda>b. if b then 1 else 0) bs)"
| "type_float (FloatTensor xs) = FloatTensor xs"

text \<open>
  \<open>ps.topk(1, dim=1)\<close>: the largest entry of each row and its index; among equal entries
  the first one, as the specification describes the operation. A row needs at least one
  entry.
\<close>

fun first_max :: "real \<Rightarrow> nat \<Rightarrow> nat \<Rightarrow> real list \<Rightarrow> real \<times> nat" where
  "first_max b bi i [] = (b, bi)"
| "first_max b bi i (x # xs) =
     (if b < x then first_max x i (Suc i) xs else first_max b bi (Suc i) xs)"

fun topk1_row :: "vec \<Rightarrow> error + real \<times> nat" where
  "topk1_row [] = Inl IndexOutOfRange"
| "topk1_row (x # xs) = Inr (first_max x 0 1 xs)"

definition topk1 :: "mat \<Rightarrow> error + (real \<times> nat) list" where
  "topk1 ps = each topk1_row ps"

text \<open>
  \<open>top_class == labels.view(*top_class.shape)\<close>: \<open>top_class\<close> has one entry per row, and
  the view raises unless \<open>labels\<close> has as many.
\<close>

definition equals :: "nat list \<Rightarrow> nat list \<Rightarrow> error + tensor" where
  "equals top_cls labels =
     (if length labels \<noteq> length top_cls then Inl SizeMismatch
      else Inr (ByteTensor (map2 (=) top_cls labels)))"

text \<open>
  The four lines that every accuracy computation of Part 5 repeats:
  \<^verbatim>\<open>ps = torch.exp(log_ps)\<close>,
  \<^verbatim>\<open>top_p, top_class = ps.topk(1, dim=1)\<close>,
  \<^verbatim>\<open>equals = top_class == labels.view(*top_class.shape)\<close>,
  \<^verbatim>\<open>torch.mean(equals.type(torch.FloatTensor))\<close>.
\<close>

definition batch_accuracy :: "mat \<Rightarrow> nat list \<Rightarrow> error + scalar" where
  "batch_accuracy log_ps labels =
     (let ps = map (map exp) log_ps in
      and_then (topk1 ps) (\<lambda>tops.
      let top_cls = map snd tops in
      and_then (equals top_cls labels) (\<lambda>eq.
      torch_mean (type_float eq))))"

section \<open>Rounding to 32-bit floating point\<close>

text \<open>
  The tensors of the notebooks hold 32-bit floats (\<open>torch.FloatTensor\<close>): an arithmetic
  operation on them stores the float nearest to its exact result, and of two floats
  equally near the one whose last bit is zero. A float is a multiple of the spacing of its
  binade: of \<open>2\<^sup>e\<^sup>-\<^sup>2\<^sup>3\<close> for a magnitude from \<open>2\<^sup>e\<close> up to \<open>2\<^sup>e\<^sup>+\<^sup>1\<close>, with \<open>e\<close> from \<open>-126\<close> to
  \<open>127\<close>, and of \<open>2\<^sup>-\<^sup>1\<^sup>4\<^sup>9\<close> below \<open>2\<^sup>-\<^sup>1\<^sup>2\<^sup>6\<close>. Magnitudes of \<open>2\<^sup>1\<^sup>2\<^sup>8\<close> and more, which the
  library stores as \<open>inf\<close>, have no real value: \<open>fl32\<close> rounds them on the spacing of the
  last binade, and nothing below is said of them that \<open>inf\<close> would not satisfy.
\<close>

text \<open>Rounding to the nearest integer, a tie going to the even one.\<close>

definition round_even :: "real \<Rightarrow> int" where
  "round_even q =
     (let f = \<lfloor>q\<rfloor>; r = q - of_int f
      in if r < 1 / 2 then f else if 1 / 2 < r then f + 1 else if even f then f else f + 1)"

text \<open>
  The binade of a magnitude: the search runs upwards from the exponent \<open>-126\<close> of the
  smallest normal float and stops at \<open>127\<close>.
\<close>

fun binade :: "nat \<Rightarrow> int \<Rightarrow> real \<Rightarrow> int" where
  "binade 0 e a = e"
| "binade (Suc n) e a = (if a < 2 powi (e + 1) then e else binade n (e + 1) a)"

definition expo :: "real \<Rightarrow> int" where
  "expo a = binade 253 (- 126) a"

text \<open>The spacing of the floats around a magnitude.\<close>

definition ulp :: "real \<Rightarrow> real" where
  "ulp a = 2 powi (expo a - 23)"

text \<open>The nearest float of a magnitude, and of a number of either sign.\<close>

definition fl32_mag :: "real \<Rightarrow> real" where
  "fl32_mag a = of_int (round_even (a / ulp a)) * ulp a"

definition fl32 :: "real \<Rightarrow> real" where
  "fl32 x = (if x < 0 then - fl32_mag (- x) else fl32_mag x)"

section \<open>The machine the loops run on\<close>

text \<open>
  A parameter carries its value, its gradient buffer (\<open>None\<close> until a backward pass first
  writes it, as \<open>print(model[0].weight.grad)\<close> shows in Part 3) and the entry the
  optimizer keeps for it.
\<close>

record adam_slot =
  step :: nat
  exp_avg :: real
  exp_avg_sq :: real

record parameter =
  data :: real
  grad :: "real option"
  opt_state :: adam_slot

datatype optimizer = SGD real | Adam real

text \<open>
  Every call into the library is recorded: \<open>Forward\<close> with the mode flag and the
  gradient-tracking flag it ran under, \<open>Criterion\<close> with the loss it returned,
  \<open>Backward\<close> with the gradient buffers it found.
\<close>

datatype call =
    ZeroGrad
  | Forward bool bool
  | Criterion scalar
  | Backward "real option list"
  | OptStep
  | ModelEval
  | ModelTrain

record machine =
  parameters :: "parameter list"
  optim :: optimizer
  training :: bool
  grad_enabled :: bool
  generator :: nat
  calls :: "call list"

datatype 'a outcome = Returned machine 'a | Raised error machine

fun machine_of :: "'a outcome \<Rightarrow> machine" where
  "machine_of (Returned st a) = st"
| "machine_of (Raised e st) = st"

text \<open>
  The model as the loops see it: a callable on the current parameter values, whose
  training-mode call may draw from the random generator, and the gradient that reverse-mode
  differentiation gives for the loss of one batch (the mode, the generator value the
  forward call started from, the parameter values, the inputs, the labels, the index of
  the parameter).
\<close>

record 'x net =
  forward_eval :: "real list \<Rightarrow> 'x \<Rightarrow> error + mat"
  forward_train :: "nat \<Rightarrow> real list \<Rightarrow> 'x \<Rightarrow> error + mat \<times> nat"
  autograd :: "bool \<Rightarrow> nat \<Rightarrow> real list \<Rightarrow> 'x \<Rightarrow> nat list \<Rightarrow> nat \<Rightarrow> real"

definition call_model :: "'x net \<Rightarrow> machine \<Rightarrow> 'x \<Rightarrow> error + mat \<times> machine" where
  "call_model N st x =
     (if training st
      then (case forward_train N (generator st) (map data (parameters st)) x of
              Inl e \<Rightarrow> Inl e
            | Inr (out, g) \<Rightarrow>
                Inr (out, st\<lparr>generator := g,
                              calls := calls st @ [Forward True (grad_enabled st)]\<rparr>))
      else (case forward_eval N (map data (parameters st)) x of
              Inl e \<Rightarrow> Inl e
            | Inr out \<Rightarrow>
                Inr (out, st\<lparr>calls := calls st @ [Forward False (grad_enabled st)]\<rparr>)))"

definition criterion :: "machine \<Rightarrow> mat \<Rightarrow> nat list \<Rightarrow> error + scalar \<times> machine" where
  "criterion st output labels =
     (case NLLLoss output labels of
        Inl e \<Rightarrow> Inl e
      | Inr loss \<Rightarrow> Inr (loss, st\<lparr>calls := calls st @ [Criterion loss]\<rparr>))"

text \<open>\<open>optimizer.zero_grad()\<close>: every gradient buffer that exists is set to zero.\<close>

definition zero_grad :: "machine \<Rightarrow> machine" where
  "zero_grad st =
     st\<lparr>parameters := map (\<lambda>p. p\<lparr>grad := map_option (\<lambda>g. 0) (grad p)\<rparr>) (parameters st),
        calls := calls st @ [ZeroGrad]\<rparr>"

text \<open>
  \<open>loss.backward()\<close>: the gradient of the loss is added to every buffer; an empty buffer
  receives it. A loss computed while gradient tracking is off cannot be differentiated
  (within a training step the flag is the one the forward call ran under).
\<close>

fun deposit :: "(nat \<Rightarrow> real) \<Rightarrow> nat \<Rightarrow> parameter list \<Rightarrow> parameter list" where
  "deposit G i [] = []"
| "deposit G i (p # ps) =
     p\<lparr>grad := Some (case grad p of None \<Rightarrow> G i | Some a \<Rightarrow> a + G i)\<rparr> # deposit G (Suc i) ps"

definition loss_backward ::
  "'x net \<Rightarrow> nat \<Rightarrow> machine \<Rightarrow> 'x \<Rightarrow> nat list \<Rightarrow> error + machine" where
  "loss_backward N g0 st x labels =
     (if \<not> grad_enabled st then Inl NoGradFn
      else Inr (st\<lparr>parameters :=
                     deposit (autograd N (training st) g0 (map data (parameters st)) x labels)
                       0 (parameters st),
                   calls := calls st @ [Backward (map grad (parameters st))]\<rparr>))"

text \<open>
  \<open>optimizer.step()\<close>. A parameter whose buffer is empty is skipped. The numbers handed to
  the constructors and the hyperparameters are Python floats; every operation on a tensor
  takes them as 32-bit floats and stores a 32-bit float. Each arithmetic operation is
  rounded on its own here (a kernel that fuses a product with the sum after it rounds
  once where this rounds twice), and what Python computes in double precision, the step
  size of Adam, is taken as exact.

  \<open>optim.SGD\<close> with its defaults is the rule Part 3 writes as \<open>W' = W - \<alpha> \<partial>\<ell>/\<partial>W\<close>: the
  gradient is scaled by the learning rate and taken off the parameter.
\<close>

definition sgd_update :: "real \<Rightarrow> parameter \<Rightarrow> parameter" where
  "sgd_update lr p =
     (case grad p of
        None \<Rightarrow> p
      | Some g \<Rightarrow> p\<lparr>data := fl32 (data p - fl32 (fl32 lr * g))\<rparr>)"

text \<open>
  \<open>optim.Adam\<close> with its defaults (\<open>betas = (0.9, 0.999)\<close>, \<open>eps = 1e-8\<close>, no weight decay),
  as the releases of the library do it in which a comparison yields a byte tensor, the
  ones the notebooks were written for: the running averages of the gradient and of its
  square are updated in place, \<open>eps\<close> is added to the root of the second, the two bias
  corrections go into the step size, which Python computes, and the parameter moves by the
  step size times the quotient of the first average and that denominator.
\<close>

definition beta1 :: real where "beta1 = 9 / 10"
definition beta2 :: real where "beta2 = 999 / 1000"
definition eps :: real where "eps = 1 / 100000000"

definition adam_update :: "real \<Rightarrow> parameter \<Rightarrow> parameter" where
  "adam_update lr p =
     (case grad p of
        None \<Rightarrow> p
      | Some g \<Rightarrow>
          (let t = step (opt_state p) + 1;
               m = fl32 (fl32 (fl32 beta1 * exp_avg (opt_state p)) + fl32 (fl32 (1 - beta1) * g));
               v = fl32 (fl32 (fl32 beta2 * exp_avg_sq (opt_state p))
                         + fl32 (fl32 (fl32 (1 - beta2) * g) * g));
               denom = fl32 (fl32 (sqrt v) + fl32 eps);
               step_size = lr * sqrt (1 - beta2 ^ t) / (1 - beta1 ^ t)
           in p\<lparr>data := fl32 (data p - fl32 (fl32 (fl32 step_size * m) / denom)),
                opt_state := \<lparr>step = t, exp_avg = m, exp_avg_sq = v\<rparr>\<rparr>))"

definition optimizer_step :: "machine \<Rightarrow> machine" where
  "optimizer_step st =
     st\<lparr>parameters :=
          (case optim st of
             SGD lr \<Rightarrow> map (sgd_update lr) (parameters st)
           | Adam lr \<Rightarrow> map (adam_update lr) (parameters st)),
        calls := calls st @ [OptStep]\<rparr>"

definition model_eval :: "machine \<Rightarrow> machine" where
  "model_eval st = st\<lparr>training := False, calls := calls st @ [ModelEval]\<rparr>"

definition model_train :: "machine \<Rightarrow> machine" where
  "model_train st = st\<lparr>training := True, calls := calls st @ [ModelTrain]\<rparr>"

text \<open>
  \<open>with torch.no_grad():\<close> is a context manager: gradient tracking is off inside the block
  and is set back when the block is left, by its end or by an exception.
\<close>

definition no_grad :: "(machine \<Rightarrow> 'a outcome) \<Rightarrow> machine \<Rightarrow> 'a outcome" where
  "no_grad body st =
     (case body (st\<lparr>grad_enabled := False\<rparr>) of
        Returned s a \<Rightarrow> Returned (s\<lparr>grad_enabled := grad_enabled st\<rparr>) a
      | Raised e s \<Rightarrow> Raised e (s\<lparr>grad_enabled := grad_enabled st\<rparr>))"

section \<open>The loops of the notebooks\<close>

subsection \<open>Training\<close>

text \<open>
  The five calls of one training step, as the single-step cells of Part 3 and the body of
  every training loop write them:
  \<^verbatim>\<open>optimizer.zero_grad()\<close>,
  \<^verbatim>\<open>output = model(images)\<close>,
  \<^verbatim>\<open>loss = criterion(output, labels)\<close>,
  \<^verbatim>\<open>loss.backward()\<close>,
  \<^verbatim>\<open>optimizer.step()\<close>.
  An exception leaves the machine as the failing call found it.
\<close>

definition training_step :: "'x net \<Rightarrow> machine \<Rightarrow> 'x \<Rightarrow> nat list \<Rightarrow> scalar outcome" where
  "training_step N st images labels =
     (let st1 = zero_grad st in
      case call_model N st1 images of
        Inl e \<Rightarrow> Raised e st1
      | Inr (output, st2) \<Rightarrow>
          (case criterion st2 output labels of
             Inl e \<Rightarrow> Raised e st2
           | Inr (loss, st3) \<Rightarrow>
               (case loss_backward N (generator st1) st3 images labels of
                  Inl e \<Rightarrow> Raised e st3
                | Inr st4 \<Rightarrow> Returned (optimizer_step st4) loss)))"

text \<open>Part 5, both training cells: the loop over \<open>trainloader\<close> with \<open>running_loss += loss.item()\<close>.\<close>

fun train_loop ::
  "'x net \<Rightarrow> machine \<Rightarrow> scalar \<Rightarrow> ('x \<times> nat list) list \<Rightarrow> scalar outcome" where
  "train_loop N st running_loss [] = Returned st running_loss"
| "train_loop N st running_loss ((images, labels) # trainloader) =
     (case training_step N st images labels of
        Raised e s \<Rightarrow> Raised e s
      | Returned s loss \<Rightarrow> train_loop N s (sadd running_loss loss) trainloader)"

text \<open>Part 3: the same loop, with \<open>images = images.view(images.shape[0], -1)\<close> first.\<close>

fun train_loop_flat ::
  "mat net \<Rightarrow> machine \<Rightarrow> scalar \<Rightarrow> (image list \<times> nat list) list \<Rightarrow> scalar outcome" where
  "train_loop_flat N st running_loss [] = Returned st running_loss"
| "train_loop_flat N st running_loss ((images, labels) # trainloader) =
     (case view_flat images of
        Inl e \<Rightarrow> Raised e st
      | Inr images \<Rightarrow>
          (case training_step N st images labels of
             Raised e s \<Rightarrow> Raised e s
           | Returned s loss \<Rightarrow> train_loop_flat N s (sadd running_loss loss) trainloader))"

text \<open>One epoch of Part 3; the value is the training loss it prints.\<close>

definition epoch_part3 ::
  "mat net \<Rightarrow> machine \<Rightarrow> (image list \<times> nat list) list \<Rightarrow> scalar outcome" where
  "epoch_part3 N st trainloader =
     (case train_loop_flat N st (Num 0) trainloader of
        Raised e s \<Rightarrow> Raised e s
      | Returned s running_loss \<Rightarrow>
          (case per_batch running_loss (length trainloader) of
             Inl e \<Rightarrow> Raised e s
           | Inr l \<Rightarrow> Returned s l))"

subsection \<open>Validation, first cell of Part 5\<close>

text \<open>
  \<^verbatim>\<open>with torch.no_grad():\<close>
  \<^verbatim>\<open>    for images, labels in testloader:\<close>
  \<^verbatim>\<open>        ps = torch.exp(model(images))\<close>
  \<^verbatim>\<open>        ...\<close>
  \<^verbatim>\<open>        accuracy = torch.mean(equals.type(torch.FloatTensor))\<close>
  \<^verbatim>\<open>print(f'Accuracy: {accuracy.item()*100}%')\<close>

  \<open>accuracy\<close> is a variable of the notebook: the loop assigns it in every round, and the
  \<open>print\<close> after the loop reads whatever it holds (\<open>None\<close>: not bound).
\<close>

fun validation_loop_v1 ::
  "'x net \<Rightarrow> machine \<Rightarrow> scalar option \<Rightarrow> ('x \<times> nat list) list \<Rightarrow> scalar option outcome" where
  "validation_loop_v1 N st accuracy [] = Returned st accuracy"
| "validation_loop_v1 N st accuracy ((images, labels) # testloader) =
     (case call_model N st images of
        Inl e \<Rightarrow> Raised e st
      | Inr (log_ps, st1) \<Rightarrow>
          (case batch_accuracy log_ps labels of
             Inl e \<Rightarrow> Raised e st1
           | Inr a \<Rightarrow> validation_loop_v1 N st1 (Some a) testloader))"

definition validation_v1 ::
  "'x net \<Rightarrow> machine \<Rightarrow> scalar option \<Rightarrow> ('x \<times> nat list) list \<Rightarrow> scalar outcome" where
  "validation_v1 N st accuracy testloader =
     (case no_grad (\<lambda>s. validation_loop_v1 N s accuracy testloader) st of
        Raised e s \<Rightarrow> Raised e s
      | Returned s None \<Rightarrow> Raised NameError s
      | Returned s (Some a) \<Rightarrow> Returned s a)"

definition epoch_v1 ::
  "'x net \<Rightarrow> machine \<Rightarrow> scalar option \<Rightarrow> ('x \<times> nat list) list \<Rightarrow> ('x \<times> nat list) list
     \<Rightarrow> scalar outcome" where
  "epoch_v1 N st accuracy trainloader testloader =
     (case train_loop N st (Num 0) trainloader of
        Raised e s \<Rightarrow> Raised e s
      | Returned s running_loss \<Rightarrow> validation_v1 N s accuracy testloader)"

subsection \<open>Validation, dropout cell of Part 5\<close>

text \<open>
  \<^verbatim>\<open>test_loss = 0\<close>
  \<^verbatim>\<open>accuracy = 0\<close>
  \<^verbatim>\<open>with torch.no_grad():\<close>
  \<^verbatim>\<open>    model.eval()\<close>
  \<^verbatim>\<open>    for images, labels in testloader:\<close>
  \<^verbatim>\<open>        log_ps = model(images)\<close>
  \<^verbatim>\<open>        test_loss += criterion(log_ps, labels)\<close>
  \<^verbatim>\<open>        ...\<close>
  \<^verbatim>\<open>        accuracy += torch.mean(equals.type(torch.FloatTensor))\<close>
  \<^verbatim>\<open>model.train()\<close>
\<close>

fun validation_loop_v2 ::
  "'x net \<Rightarrow> machine \<Rightarrow> scalar \<Rightarrow> scalar \<Rightarrow> ('x \<times> nat list) list
     \<Rightarrow> (scalar \<times> scalar) outcome" where
  "validation_loop_v2 N st test_loss accuracy [] = Returned st (test_loss, accuracy)"
| "validation_loop_v2 N st test_loss accuracy ((images, labels) # testloader) =
     (case call_model N st images of
        Inl e \<Rightarrow> Raised e st
      | Inr (log_ps, st1) \<Rightarrow>
          (case criterion st1 log_ps labels of
             Inl e \<Rightarrow> Raised e st1
           | Inr (loss, st2) \<Rightarrow>
               (case batch_accuracy log_ps labels of
                  Inl e \<Rightarrow> Raised e st2
                | Inr a \<Rightarrow>
                    validation_loop_v2 N st2 (sadd test_loss loss) (sadd accuracy a) testloader)))"

definition validation_v2 ::
  "'x net \<Rightarrow> machine \<Rightarrow> ('x \<times> nat list) list \<Rightarrow> (scalar \<times> scalar) outcome" where
  "validation_v2 N st testloader =
     (case no_grad (\<lambda>s. validation_loop_v2 N (model_eval s) (Num 0) (Num 0) testloader) st of
        Raised e s \<Rightarrow> Raised e s
      | Returned s r \<Rightarrow> Returned (model_train s) r)"

text \<open>
  One epoch of the dropout cell; the value is the triple it prints: training loss, test
  loss, test accuracy, each divided by the number of batches of its loader.
\<close>

definition epoch_v2 ::
  "'x net \<Rightarrow> machine \<Rightarrow> ('x \<times> nat list) list \<Rightarrow> ('x \<times> nat list) list
     \<Rightarrow> (scalar \<times> scalar \<times> scalar) outcome" where
  "epoch_v2 N st trainloader testloader =
     (case train_loop N st (Num 0) trainloader of
        Raised e s \<Rightarrow> Raised e s
      | Returned s running_loss \<Rightarrow>
          (case validation_v2 N s testloader of
             Raised e s \<Rightarrow> Raised e s
           | Returned s (test_loss, accuracy) \<Rightarrow>
               (case per_batch running_loss (length trainloader) of
                  Inl e \<Rightarrow> Raised e s
                | Inr train_l \<Rightarrow>
                    (case per_batch test_loss (length testloader) of
                       Inl e \<Rightarrow> Raised e s
                     | Inr test_l \<Rightarrow>
                         (case per_batch accuracy (length testloader) of
                            Inl e \<Rightarrow> Raised e s
                          | Inr acc \<Rightarrow> Returned s (train_l, test_l, acc))))))"

section \<open>Notions the properties are stated with\<close>

text \<open>A gradient buffer is emptied when it is absent or holds zero.\<close>

definition emptied :: "real option \<Rightarrow> bool" where
  "emptied b = (b = None \<or> b = Some 0)"

text \<open>
  The library calls of one training step, in the order (a) to (e) of the contract: clear
  the gradients, compute the output, compute the loss, differentiate, update.
\<close>

definition step_calls :: "bool \<Rightarrow> scalar \<Rightarrow> real option list \<Rightarrow> call list" where
  "step_calls mode loss gs = [ZeroGrad, Forward mode True, Criterion loss, Backward gs, OptStep]"

fun returned :: "'a outcome \<Rightarrow> bool" where
  "returned (Returned st a) = True"
| "returned (Raised e st) = False"

text \<open>
  The library calls of one round of the dropout cell's validation loop: the model is
  called in evaluation mode with gradient tracking off, and the criterion after it.
\<close>

definition eval_calls :: "scalar \<Rightarrow> call list" where
  "eval_calls loss = [Forward False False, Criterion loss]"

text \<open>A call that a validation loop may make under the given mode and tracking flags.\<close>

fun pass_call :: "bool \<Rightarrow> bool \<Rightarrow> call \<Rightarrow> bool" where
  "pass_call m g (Forward m' g') = (m' = m \<and> g' = g)"
| "pass_call m g (Criterion v) = True"
| "pass_call m g c = False"

text \<open>
  A call that touches no gradient buffer and no parameter: a model call with gradient
  tracking off, a criterion call or a switch of the mode.
\<close>

fun reads_only :: "call \<Rightarrow> bool" where
  "reads_only (Forward m g) = (\<not> g)"
| "reads_only (Criterion v) = True"
| "reads_only ModelEval = True"
| "reads_only ModelTrain = True"
| "reads_only c = False"

text \<open>
  What the contract of a training step says of one batch, as a relation between the
  machine before the step, the batch, the loss and the machine after it: the loss is the
  criterion's value for the output the model gives on the batch's inputs, in the mode and
  at the parameter values of the machine before the step, against the batch's labels; the
  calls made are the five of \<open>step_calls\<close>, in that order; and the parameters afterwards are
  what the optimizer's update makes of the parameters before with every gradient buffer
  holding the gradient of this batch's loss.
\<close>

definition model_output :: "'x net \<Rightarrow> machine \<Rightarrow> 'x \<Rightarrow> error + mat" where
  "model_output N m x =
     (if training m
      then (case forward_train N (generator m) (map data (parameters m)) x of
              Inl e \<Rightarrow> Inl e
            | Inr (out, g) \<Rightarrow> Inr out)
      else forward_eval N (map data (parameters m)) x)"

definition batch_gradient :: "'x net \<Rightarrow> machine \<Rightarrow> 'x \<times> nat list \<Rightarrow> nat \<Rightarrow> real" where
  "batch_gradient N m b =
     autograd N (training m) (generator m) (map data (parameters m)) (fst b) (snd b)"

definition with_gradient :: "(nat \<Rightarrow> real) \<Rightarrow> machine \<Rightarrow> machine" where
  "with_gradient G m =
     m\<lparr>parameters := map2 (\<lambda>p k. p\<lparr>grad := Some (G k)\<rparr>) (parameters m)
                         [0..<length (parameters m)]\<rparr>"

definition step_on :: "'x net \<Rightarrow> machine \<Rightarrow> 'x \<times> nat list \<Rightarrow> scalar \<Rightarrow> machine \<Rightarrow> bool" where
  "step_on N m b loss m' \<longleftrightarrow>
     (case model_output N m (fst b) of
        Inl e \<Rightarrow> False
      | Inr out \<Rightarrow> NLLLoss out (snd b) = Inr loss)
     \<and> calls m' = calls m @ step_calls (training m) loss (map grad (parameters (zero_grad m)))
     \<and> parameters m' = parameters (optimizer_step (with_gradient (batch_gradient N m b) m))
     \<and> training m' = training m \<and> grad_enabled m' = grad_enabled m \<and> optim m' = optim m"

text \<open>
  A list of losses and machines records the steps on the first batches of a loader, in the
  loader's order: the first entry is a step on the first batch from the given machine, and
  each further entry a step on the next batch from the machine the entry before it left.
\<close>

fun steps_on ::
  "'x net \<Rightarrow> machine \<Rightarrow> ('x \<times> nat list) list \<Rightarrow> (scalar \<times> machine) list \<Rightarrow> bool" where
  "steps_on N m bs [] = True"
| "steps_on N m [] (r # rs) = False"
| "steps_on N m (b # bs) (r # rs) = (step_on N m b (fst r) (snd r) \<and> steps_on N (snd r) bs rs)"

text \<open>A batch of Part 3 after \<open>images.view(images.shape[0], -1)\<close>.\<close>

definition flat_batch :: "image list \<times> nat list \<Rightarrow> mat \<times> nat list" where
  "flat_batch b = (map concat (fst b), snd b)"



text \<open>
  A result no larger in magnitude than the largest float is stored as a float. A larger
  one may be stored as \<open>inf\<close>, and \<open>nan\<close> may come of it: of such an update the model says
  nothing. The lists below hold the exact results of the operations of one update on a
  parameter, each as it is before its rounding.
\<close>

definition in_range :: "real \<Rightarrow> bool" where
  "in_range x \<longleftrightarrow> \<bar>x\<bar> \<le> 2 ^ 128 - 2 ^ 104"


definition adam_results :: "real \<Rightarrow> parameter \<Rightarrow> real list" where
  "adam_results lr p =
     (case grad p of
        None \<Rightarrow> []
      | Some g \<Rightarrow>
          (let t = step (opt_state p) + 1;
               a1 = fl32 beta1 * exp_avg (opt_state p);
               a2 = fl32 (1 - beta1) * g;
               m = fl32 (fl32 a1 + fl32 a2);
               b1 = fl32 beta2 * exp_avg_sq (opt_state p);
               b2 = fl32 (1 - beta2) * g;
               b3 = fl32 b2 * g;
               v = fl32 (fl32 b1 + fl32 b3);
               denom = fl32 (fl32 (sqrt v) + fl32 eps);
               step_size = lr * sqrt (1 - beta2 ^ t) / (1 - beta1 ^ t);
               n = fl32 step_size * m;
               quo = fl32 n / denom
           in [a1, a2, fl32 a1 + fl32 a2, b1, b2, b3, fl32 b1 + fl32 b3, sqrt v,
               fl32 (sqrt v) + fl32 eps, step_size, n, quo, data p - fl32 quo]))"

text \<open>
  The class predicted for one row of log-probabilities, the number of samples of a batch
  whose predicted class is the label, and that number for the output the model gives in
  evaluation mode.
\<close>

definition predicted :: "vec \<Rightarrow> nat" where
  "predicted log_p = (case topk1_row (map exp log_p) of Inl e \<Rightarrow> 0 | Inr (p, c) \<Rightarrow> c)"

definition hits :: "mat \<Rightarrow> nat list \<Rightarrow> nat" where
  "hits log_ps labels = length (filter (\<lambda>(r, l). predicted r = l) (zip log_ps labels))"

definition correct :: "'x net \<Rightarrow> real list \<Rightarrow> 'x \<times> nat list \<Rightarrow> nat" where
  "correct N ps b =
     (case forward_eval N ps (fst b) of Inl e \<Rightarrow> 0 | Inr log_ps \<Rightarrow> hits log_ps (snd b))"

text \<open>
  The test accuracy the dropout cell prints for a machine that has finished the epoch's
  training: the validation pass, then \<open>accuracy/len(testloader)\<close>.
\<close>

definition reported_accuracy ::
  "'x net \<Rightarrow> machine \<Rightarrow> ('x \<times> nat list) list \<Rightarrow> error + scalar" where
  "reported_accuracy N st testloader =
     (case validation_v2 N st testloader of
        Raised e s \<Rightarrow> Inl e
      | Returned s (test_loss, accuracy) \<Rightarrow> per_batch accuracy (length testloader))"

subsection \<open>A small model for concrete runs\<close>

text \<open>
  A network of one weight \<open>w\<close> that scores a sample \<open>r\<close> with \<open>w\<close> times the sum of its
  entries for class 0 and with 0 for class 1. Under the negative log likelihood loss a
  sample labelled 0 contributes minus its class-0 score, so the derivative of the batch's
  mean loss in \<open>w\<close> is the mean, over the batch, of minus the sum of the entries of the
  samples labelled 0.
\<close>

definition scorer_net :: "mat net" where
  "scorer_net =
     \<lparr>forward_eval = (\<lambda>ps X. case ps of [] \<Rightarrow> Inl SizeMismatch
                                | w # _ \<Rightarrow> Inr (map (\<lambda>r. [w * sum_list r, 0]) X)),
      forward_train = (\<lambda>g ps X. case ps of [] \<Rightarrow> Inl SizeMismatch
                                | w # _ \<Rightarrow> Inr (map (\<lambda>r. [w * sum_list r, 0]) X, g)),
      autograd = (\<lambda>mode g ps X labels k.
                    sum_list (map2 (\<lambda>r l. if l = 0 then - sum_list r else 0) X labels)
                    / real (length labels))\<rparr>"

text \<open>A machine fresh from its constructors: one parameter of the given value, training mode.\<close>

definition scorer_machine :: "optimizer \<Rightarrow> real \<Rightarrow> machine" where
  "scorer_machine opt w =
     \<lparr>parameters = [\<lparr>data = w, grad = None, opt_state = \<lparr>step = 0, exp_avg = 0, exp_avg_sq = 0\<rparr>\<rparr>],
      optim = opt, training = True, grad_enabled = True, generator = 0, calls = []\<rparr>"

text \<open>The mean loss of a batch as a function of the weight.\<close>

definition scorer_loss :: "real \<Rightarrow> mat \<Rightarrow> nat list \<Rightarrow> real" where
  "scorer_loss w X labels =
     (case and_then (forward_eval scorer_net [w] X) (\<lambda>out. NLLLoss out labels) of
        Inr (Num v) \<Rightarrow> v
      | _ \<Rightarrow> 0)"

section \<open>Properties of the rounding\<close>

text \<open>
  Rounding to an integer leaves the integers where they are, keeps the order and errs by
  at most one half.
\<close>

lemma round_even_of_int: "round_even (of_int n) = n"
  by (simp add: round_even_def)

lemma round_even_mono: "q \<le> q' \<Longrightarrow> round_even q \<le> round_even q'"
proof -
  assume le: "q \<le> q'"
  then have f: "\<lfloor>q\<rfloor> \<le> \<lfloor>q'\<rfloor>" by (rule floor_mono)
  have lo: "\<lfloor>q'\<rfloor> \<le> round_even q'" by (simp add: round_even_def Let_def)
  have hi: "round_even q \<le> \<lfloor>q\<rfloor> + 1" by (simp add: round_even_def Let_def)
  show ?thesis
  proof (cases "\<lfloor>q\<rfloor> = \<lfloor>q'\<rfloor>")
    case True
    with le show ?thesis by (auto simp: round_even_def Let_def)
  next
    case False
    with f have "\<lfloor>q\<rfloor> + 1 \<le> \<lfloor>q'\<rfloor>" by simp
    with lo hi show ?thesis by linarith
  qed
qed

lemma round_even_ge: "of_int k \<le> q \<Longrightarrow> k \<le> round_even q"
  using round_even_mono [of "of_int k" q] by (simp add: round_even_of_int)

lemma round_even_le: "q \<le> of_int k \<Longrightarrow> round_even q \<le> k"
  using round_even_mono [of q "of_int k"] by (simp add: round_even_of_int)


text \<open>
  The exponent found lies between \<open>-126\<close> and \<open>127\<close>; the magnitude is below the upper end
  of its binade unless the search stopped at \<open>127\<close>, and at or above its lower end unless
  the search stopped where it began.
\<close>

lemma binade_range: "e \<le> binade n e a \<and> binade n e a \<le> e + int n"
proof (induction n arbitrary: e)
  case 0
  then show ?case by simp
next
  case (Suc n)
  from Suc [of "e + 1"] show ?case by auto
qed

lemma binade_upper: "binade n e a < e + int n \<Longrightarrow> a < 2 powi (binade n e a + 1)"
proof (induction n arbitrary: e)
  case 0
  then show ?case by simp
next
  case (Suc n)
  show ?case
  proof (cases "a < 2 powi (e + 1)")
    case True
    then show ?thesis by simp
  next
    case False
    with Suc.prems have "binade n (e + 1) a < (e + 1) + int n" by simp
    from Suc.IH [OF this] False show ?thesis by simp
  qed
qed

lemma binade_lower: "e < binade n e a \<Longrightarrow> 2 powi (binade n e a) \<le> a"
proof (induction n arbitrary: e)
  case 0
  then show ?case by simp
next
  case (Suc n)
  show ?case
  proof (cases "a < 2 powi (e + 1)")
    case True
    with Suc.prems show ?thesis by simp
  next
    case False
    show ?thesis
    proof (cases "e + 1 < binade n (e + 1) a")
      case True
      from Suc.IH [OF this] False show ?thesis by simp
    next
      case F: False
      with binade_range [of "e + 1" n a] have "binade n (e + 1) a = e + 1" by simp
      with False show ?thesis by simp
    qed
  qed
qed

lemma expo_range: "- 126 \<le> expo a" "expo a \<le> 127"
  using binade_range [of "- 126" 253 a] by (simp_all add: expo_def)

lemma expo_upper: "expo a < 127 \<Longrightarrow> a < 2 powi (expo a + 1)"
  using binade_upper [of 253 "- 126" a] by (simp add: expo_def)

lemma expo_lower: "- 126 < expo a \<Longrightarrow> 2 powi (expo a) \<le> a"
  using binade_lower [of "- 126" 253 a] by (simp add: expo_def)

lemma pow2_less: "(2::real) powi m < 2 powi n \<Longrightarrow> m < n"
  by (rule ccontr) (use power_int_increasing [of n m "2::real"] in simp)

lemma expo_mono: "a \<le> b \<Longrightarrow> expo a \<le> expo b"
proof (rule ccontr)
  assume le: "a \<le> b" and "\<not> expo a \<le> expo b"
  then have lt: "expo b < expo a" by simp
  with expo_range(2) [of a] have "expo b < 127" by simp
  then have "b < 2 powi (expo b + 1)" by (rule expo_upper)
  moreover from lt expo_range(1) [of b] have "2 powi (expo a) \<le> a" by (intro expo_lower) simp
  ultimately have "(2::real) powi (expo a) < 2 powi (expo b + 1)" using le by linarith
  then have "expo a < expo b + 1" by (rule pow2_less)
  with lt show False by simp
qed

lemma expo_eq:
  assumes "- 126 \<le> e" and "e \<le> 127" and "e = - 126 \<or> 2 powi e \<le> a"
    and "e = 127 \<or> a < 2 powi (e + 1)"
  shows "expo a = e"
proof (rule antisym)
  show "expo a \<le> e"
  proof (rule ccontr)
    assume "\<not> expo a \<le> e"
    then have lt: "e < expo a" by simp
    with expo_range(2) [of a] assms(4) have u: "a < 2 powi (e + 1)" by auto
    from lt assms(1) have "2 powi (expo a) \<le> a" by (intro expo_lower) simp
    with u have "(2::real) powi (expo a) < 2 powi (e + 1)" by linarith
    then have "expo a < e + 1" by (rule pow2_less)
    with lt show False by simp
  qed
  show "e \<le> expo a"
  proof (rule ccontr)
    assume "\<not> e \<le> expo a"
    then have lt: "expo a < e" by simp
    with expo_range(1) [of a] assms(3) have l: "2 powi e \<le> a" by auto
    from lt assms(2) have "a < 2 powi (expo a + 1)" by (intro expo_upper) simp
    with l have "(2::real) powi e < 2 powi (expo a + 1)" by linarith
    then have "e < expo a + 1" by (rule pow2_less)
    with lt show False by simp
  qed
qed

text \<open>
  Rounding keeps the order: within a binade because rounding to an integer does, and
  across binades because a magnitude is rounded to no less than the lower end and to no
  more than the upper end of its binade.
\<close>

lemma ulp_pos: "0 < ulp a"
  by (simp add: ulp_def)

lemma fl32_mag_nonneg: "0 \<le> a \<Longrightarrow> 0 \<le> fl32_mag a"
proof -
  assume "0 \<le> a"
  then have "of_int 0 \<le> a / ulp a" using ulp_pos [of a] by simp
  then have "0 \<le> round_even (a / ulp a)" by (rule round_even_ge)
  then show ?thesis using ulp_pos [of a] by (simp add: fl32_mag_def)
qed

lemma pow2_split: "(2::real) powi (e + 1) = 2 ^ 24 * 2 powi (e - 23)"
proof -
  have "(2::real) powi (e + 1) = 2 powi (24 + (e - 23))"
    by (rule arg_cong [where f = "\<lambda>n. 2 powi n"]) simp
  also have "\<dots> = 2 powi 24 * 2 powi (e - 23)" by (rule power_int_add) simp
  finally show ?thesis by simp
qed

lemma pow2_split': "(2::real) powi e = 2 ^ 23 * 2 powi (e - 23)"
proof -
  have "(2::real) powi e = 2 powi (23 + (e - 23))"
    by (rule arg_cong [where f = "\<lambda>n. 2 powi n"]) simp
  also have "\<dots> = 2 powi 23 * 2 powi (e - 23)" by (rule power_int_add) simp
  finally show ?thesis by simp
qed

lemma fl32_mag_upper:
  assumes "a < 2 powi (expo a + 1)"
  shows "fl32_mag a \<le> 2 powi (expo a + 1)"
proof -
  have "a / ulp a \<le> of_int (2 ^ 24)"
    using assms ulp_pos [of a] unfolding ulp_def pow2_split [of "expo a"]
    by (simp add: field_simps)
  then have "round_even (a / ulp a) \<le> 2 ^ 24" by (rule round_even_le)
  then have "(of_int (round_even (a / ulp a)) :: real) \<le> 2 ^ 24"
    by (metis of_int_le_iff of_int_numeral of_int_power)
  then show ?thesis
    unfolding fl32_mag_def pow2_split [of "expo a"] ulp_def [symmetric]
    using ulp_pos [of a] by simp
qed

lemma fl32_mag_lower:
  assumes "2 powi (expo a) \<le> a"
  shows "2 powi (expo a) \<le> fl32_mag a"
proof -
  have "of_int (2 ^ 23) \<le> a / ulp a"
    using assms ulp_pos [of a] unfolding ulp_def pow2_split' [of "expo a"]
    by (simp add: field_simps)
  then have "2 ^ 23 \<le> round_even (a / ulp a)" by (rule round_even_ge)
  then have "(2 ^ 23 :: real) \<le> of_int (round_even (a / ulp a))"
    by (metis of_int_le_iff of_int_numeral of_int_power)
  then show ?thesis
    unfolding fl32_mag_def pow2_split' [of "expo a"] ulp_def [symmetric]
    using ulp_pos [of a] by simp
qed

lemma fl32_mag_mono:
  assumes "a \<le> b"
  shows "fl32_mag a \<le> fl32_mag b"
proof (cases "expo a = expo b")
  case True
  then have u: "ulp a = ulp b" by (simp add: ulp_def)
  from assms have "a / ulp b \<le> b / ulp b" using ulp_pos [of b] by (simp add: divide_right_mono)
  then have "round_even (a / ulp b) \<le> round_even (b / ulp b)" by (rule round_even_mono)
  then show ?thesis unfolding fl32_mag_def u using ulp_pos [of b] by simp
next
  case False
  with expo_mono [OF assms] have lt: "expo a < expo b" by simp
  with expo_range(2) [of b] have "expo a < 127" by simp
  then have "a < 2 powi (expo a + 1)" by (rule expo_upper)
  then have 1: "fl32_mag a \<le> 2 powi (expo a + 1)" by (rule fl32_mag_upper)
  from lt expo_range(1) [of a] have "2 powi (expo b) \<le> b" by (intro expo_lower) simp
  then have 2: "2 powi (expo b) \<le> fl32_mag b" by (rule fl32_mag_lower)
  from lt have "(2::real) powi (expo a + 1) \<le> 2 powi (expo b)"
    by (intro power_int_increasing) simp_all
  with 1 2 show ?thesis by linarith
qed

lemma fl32_mag_zero: "fl32_mag 0 = 0"
  by (simp add: fl32_mag_def round_even_def)

lemma fl32_zero: "fl32 0 = 0"
  by (simp add: fl32_def fl32_mag_zero)

lemma fl32_minus: "fl32 (- x) = - fl32 x"
  by (cases "x = 0") (auto simp: fl32_def fl32_mag_zero)

lemma fl32_mono:
  assumes "x \<le> y"
  shows "fl32 x \<le> fl32 y"
proof -
  consider "0 \<le> x" | "x < 0" "0 \<le> y" | "y < 0" by linarith
  then show ?thesis
  proof cases
    case 1
    with assms show ?thesis by (simp add: fl32_def fl32_mag_mono)
  next
    case 2
    then have "0 \<le> fl32_mag (- x)" "0 \<le> fl32_mag y" by (simp_all add: fl32_mag_nonneg)
    with 2 show ?thesis by (simp add: fl32_def)
  next
    case 3
    with assms have "fl32_mag (- y) \<le> fl32_mag (- x)" by (intro fl32_mag_mono) simp
    with 3 assms show ?thesis by (simp add: fl32_def)
  qed
qed

lemma fl32_nonneg: "0 \<le> x \<Longrightarrow> 0 \<le> fl32 x"
  using fl32_mono [of 0 x] by (simp add: fl32_zero)





text \<open>The rounding of a magnitude whose binade is known.\<close>

lemma fl32_mag_eval:
  assumes "- 126 \<le> e" and "e \<le> 127" and "e = - 126 \<or> 2 powi e \<le> a"
    and "e = 127 \<or> a < 2 powi (e + 1)"
  shows "fl32_mag a = of_int (round_even (a / 2 powi (e - 23))) * 2 powi (e - 23)"
  by (simp add: fl32_mag_def ulp_def expo_eq [OF assms])




section \<open>Properties of the networks\<close>

subsection \<open>A network of zero weights\<close>

lemma dot_zero: "dot (replicate n 0) x = 0"
proof (induction n arbitrary: x)
  case 0
  then show ?case by (simp add: dot_def)
next
  case (Suc n)
  then show ?case by (cases x) (simp_all add: dot_def)
qed

lemma linear_row_zero:
  "length x = n \<Longrightarrow> linear_row (zero_linear n m) x = Inr (replicate m 0)"
  by (simp add: linear_row_def zero_linear_def list_all_iff dot_zero)

lemma linear_zero:
  "list_all (\<lambda>x. length x = n) X \<Longrightarrow>
   linear_batch (zero_linear n m) X = Inr (replicate (length X) (replicate m 0))"
  unfolding linear_batch_def
  by (induction X) (simp_all add: linear_row_zero)

lemma relu_zero: "relu (replicate k (replicate m 0)) = replicate k (replicate m 0)"
  by (simp add: relu_def)

lemma log_softmax_zero2:
  "log_softmax (replicate k (replicate 2 0)) = replicate k [- ln 2, - ln 2]"
  by (simp add: log_softmax_def log_softmax_row_def numeral_2_eq_2)

lemma list_all_replicate_len: "list_all (\<lambda>x. length x = m) (replicate k (replicate m (0::real)))"
  by (simp add: list_all_iff)

lemma zero_net_logits:
  assumes "list_all (\<lambda>x. length x = n) X"
  shows "Sequential (model_logits (zero_linear n h1) (zero_linear h1 h2) (zero_linear h2 c)) X
         = Inr (replicate (length X) (replicate c 0))"
  using assms
  by (simp add: model_logits_def and_then_def linear_zero relu_zero list_all_replicate_len)

lemma zero_net_logps:
  assumes "list_all (\<lambda>x. length x = n) X"
  shows "Sequential (model_logps (zero_linear n h1) (zero_linear h1 h2) (zero_linear h2 c)) X
         = Inr (log_softmax (replicate (length X) (replicate c 0)))"
  using assms
  by (simp add: model_logps_def and_then_def linear_zero relu_zero list_all_replicate_len)

lemma nll_uniform2:
  assumes "labels \<noteq> []" "list_all (\<lambda>l. l < 2) labels"
  shows "NLLLoss (replicate (length labels) [- ln 2, - ln 2]) labels = Inr (Num (ln 2))"
proof -
  have a: "list_all (\<lambda>(r, l). l < length r) (zip (replicate (length labels) [- ln 2, - ln (2::real)]) labels)"
    using assms(2) by (induction labels) simp_all
  have b: "map2 (\<lambda>r l. - (r ! l)) (replicate (length labels) [- ln 2, - ln (2::real)]) labels
           = replicate (length labels) (ln 2)"
    using assms(2)
  proof (induction labels)
    case Nil
    then show ?case by simp
  next
    case (Cons l ls)
    then have "l = 0 \<or> l = 1" by auto
    with Cons show ?case by auto
  qed
  show ?thesis using assms(1) by (simp add: NLLLoss_def a b mean_of_def sum_list_replicate)
qed

text \<open>
  C8. With all weights and biases zero, two output classes and a batch of four samples,
  the loss before any update is \<open>ln 2\<close>, for the log-softmax network with the negative log
  likelihood loss and for the logits network with the cross-entropy loss alike: every
  sample gets the log-probability \<open>- ln 2\<close> for both classes, whatever the images are and
  whatever the widths of the hidden layers.
\<close>

theorem zero_model_initial_loss:
  assumes "length images = 4" and "list_all (\<lambda>i. length (concat i) = n_in) images"
    and "length labels = 4" and "list_all (\<lambda>l. l < 2) labels"
  shows "loss_cell_logps (zero_linear n_in h1) (zero_linear h1 h2) (zero_linear h2 2) images labels
           = Inr (Num (ln 2))
       \<and> loss_cell_logits (zero_linear n_in h1) (zero_linear h1 h2) (zero_linear h2 2) images labels
           = Inr (Num (ln 2))"
proof -
  from assms(1) have ne: "images \<noteq> []" by auto
  have rows: "list_all (\<lambda>x. length x = n_in) (map concat images)"
    using assms(2) by (simp add: list_all_iff)
  have len: "length (map concat images) = length labels"
    using assms(1,3) by simp
  from assms(3) have lne: "labels \<noteq> []" by auto
  have nll: "NLLLoss (log_softmax (replicate (length (map concat images)) (replicate 2 0))) labels
             = Inr (Num (ln 2))"
    unfolding len log_softmax_zero2 using lne assms(4) by (rule nll_uniform2)
  show ?thesis
    using ne nll
    by (simp add: loss_cell_logps_def loss_cell_logits_def view_flat_def and_then_def
        zero_net_logps [OF rows] zero_net_logits [OF rows] CrossEntropyLoss_def)
qed

theorem zero_model_initial_loss_witness:
  "loss_cell_logps (zero_linear 2 3) (zero_linear 3 1) (zero_linear 1 2)
     [[[1, 2]], [[3], [4]], [[0, 0]], [[5, 6]]] [0, 1, 1, 0] = Inr (Num (ln 2))
   \<and> loss_cell_logits (zero_linear 2 3) (zero_linear 3 1) (zero_linear 1 2)
     [[[1, 2]], [[3], [4]], [[0, 0]], [[5, 6]]] [0, 1, 1, 0] = Inr (Num (ln 2))"
  using zero_model_initial_loss [of "[[[1, 2]], [[3], [4]], [[0, 0]], [[5, 6]]]" 2 "[0, 1, 1, 0]" 3 1]
  by simp

subsection \<open>Dropout in evaluation mode\<close>

lemma forward_dropout_tail:
  assumes "forward_dropout tr m1 m2 m3 c x = Inr out"
  shows "\<exists>h z. linear_batch (fc4 c) h = Inr z \<and> out = log_softmax z"
  using assms
  by (auto simp: forward_dropout_def and_then_def Let_def split: sum.splits)

text \<open>
  C10. In evaluation mode the forward function of the \<open>Classifier\<close> with dropout is the
  forward function of the \<open>Classifier\<close> without it, on every batch and whatever masks the
  generator would have drawn. In either mode the value it returns is the log-softmax of
  the fourth layer's output: dropout touches the three hidden activations only.
\<close>

theorem dropout_eval_is_plain_forward:
  "forward_dropout False m1 m2 m3 c x = forward c x
   \<and> (forward_dropout tr m1 m2 m3 c x = Inr out
        \<longrightarrow> (\<exists>h z. linear_batch (fc4 c) h = Inr z \<and> out = log_softmax z))"
  by (simp add: forward_dropout_def forward_def dropout_def
      forward_dropout_tail [unfolded forward_dropout_def])

theorem dropout_eval_is_plain_forward_witness:
  "forward_dropout False [[True]] [[False]] [[True]]
     \<lparr>fc1 = \<lparr>weight = [[1]], bias = [0]\<rparr>, fc2 = \<lparr>weight = [[2]], bias = [1]\<rparr>,
      fc3 = \<lparr>weight = [[1]], bias = [0]\<rparr>, fc4 = \<lparr>weight = [[1], [0]], bias = [0, 0]\<rparr>\<rparr> [[[4]]]
   = forward
     \<lparr>fc1 = \<lparr>weight = [[1]], bias = [0]\<rparr>, fc2 = \<lparr>weight = [[2]], bias = [1]\<rparr>,
      fc3 = \<lparr>weight = [[1]], bias = [0]\<rparr>, fc4 = \<lparr>weight = [[1], [0]], bias = [0, 0]\<rparr>\<rparr> [[[4]]]
   \<and> (\<exists>h z. linear_batch \<lparr>weight = [[1], [0]], bias = [0, 0]\<rparr> h = Inr z
          \<and> [[- ln 2, - ln 2]] = log_softmax z)"
proof -
  let ?c = "\<lparr>fc1 = \<lparr>weight = [[1]], bias = [0]\<rparr>, fc2 = \<lparr>weight = [[2]], bias = [1]\<rparr>,
      fc3 = \<lparr>weight = [[1]], bias = [0]\<rparr>, fc4 = \<lparr>weight = [[1], [0::real]], bias = [0, 0]\<rparr>\<rparr>"
  have run: "forward_dropout True [[True]] [[False]] [[True]] ?c [[[4]]] = Inr [[- ln 2, - ln 2]]"
    by (simp add: forward_dropout_def and_then_def view_flat_def linear_batch_def linear_row_def
        dot_def relu_def dropout_def dropout_p_def log_softmax_def log_softmax_row_def)
  from dropout_eval_is_plain_forward [of "[[True]]" "[[False]]" "[[True]]" ?c "[[[4]]]" True
      "[[- ln 2, - ln 2]]"] run
  show ?thesis by simp
qed

subsection \<open>The gradient of the one-weight network\<close>

text \<open>
  The gradient the small model hands to \<open>loss.backward()\<close> is the derivative of its mean
  loss in the weight, for every batch with labels 0 and 1.
\<close>

lemma scorer_rows_ok:
  "length X = length labels \<Longrightarrow> list_all (\<lambda>l. l < 2) labels \<Longrightarrow>
   list_all (\<lambda>(r, l). l < length r) (zip (map (\<lambda>r. [w * sum_list r, 0 :: real]) X) labels)"
  by (induction X labels rule: list_induct2) simp_all

lemma scorer_sum:
  "length X = length labels \<Longrightarrow> list_all (\<lambda>l. l < 2) labels \<Longrightarrow>
   sum_list (map2 (\<lambda>r l. - (r ! l)) (map (\<lambda>r. [w * sum_list r, 0 :: real]) X) labels)
   = w * sum_list (map2 (\<lambda>r l. if l = 0 then - sum_list r else 0) X labels)"
proof (induction X labels rule: list_induct2)
  case Nil
  then show ?case by simp
next
  case (Cons r X l labels)
  then have "l = 0 \<or> l = 1" by auto
  with Cons show ?case by (auto simp: algebra_simps)
qed

lemma scorer_loss_linear:
  assumes "length X = length labels" and "labels \<noteq> []" and "list_all (\<lambda>l. l < 2) labels"
  shows "scorer_loss w X labels = w * autograd scorer_net mode g [w0] X labels k"
  using assms scorer_rows_ok [OF assms(1,3), of w] scorer_sum [OF assms(1,3), of w]
  by (simp add: scorer_loss_def scorer_net_def and_then_def NLLLoss_def mean_of_def)

lemma scorer_gradient:
  assumes "length X = length labels" and "labels \<noteq> []" and "list_all (\<lambda>l. l < 2) labels"
  shows "((\<lambda>w. scorer_loss w X labels) has_real_derivative
            autograd scorer_net mode g [w] X labels k) (at w)"
proof -
  have "(\<lambda>w. scorer_loss w X labels) = (\<lambda>v. v * autograd scorer_net mode g [w] X labels k)"
    using scorer_loss_linear [OF assms] by (intro ext) simp
  moreover have "((\<lambda>v. v * autograd scorer_net mode g [w] X labels k) has_real_derivative
            autograd scorer_net mode g [w] X labels k) (at w)"
    by (auto intro!: derivative_eq_intros)
  ultimately show ?thesis by simp
qed

section \<open>Properties of the training loops\<close>

lemma call_model_effect:
  assumes "call_model N st x = Inr (out, s)"
  shows "parameters s = parameters st \<and> optim s = optim st \<and> training s = training st
       \<and> grad_enabled s = grad_enabled st
       \<and> calls s = calls st @ [Forward (training st) (grad_enabled st)]"
  using assms
  by (auto simp: call_model_def split: if_splits sum.splits prod.splits)

lemma criterion_effect:
  assumes "criterion st out l = Inr (loss, s)"
  shows "s = st\<lparr>calls := calls st @ [Criterion loss]\<rparr> \<and> NLLLoss out l = Inr loss"
  using assms by (auto simp: criterion_def split: sum.splits)

lemma emptied_map_option: "emptied (map_option (\<lambda>g. 0) b)"
  by (cases b) (simp_all add: emptied_def)

lemma emptied_zero_grad: "list_all emptied (map grad (parameters (zero_grad st)))"
  by (simp add: zero_grad_def list_all_iff emptied_map_option)

lemma zero_grad_fields:
  "map data (parameters (zero_grad st)) = map data (parameters st)"
  "length (parameters (zero_grad st)) = length (parameters st)"
  "training (zero_grad st) = training st" "generator (zero_grad st) = generator st"
  "grad_enabled (zero_grad st) = grad_enabled st" "optim (zero_grad st) = optim st"
  "calls (zero_grad st) = calls st @ [ZeroGrad]"
  by (simp_all add: zero_grad_def comp_def)

lemma length_deposit: "length (deposit G i ps) = length ps"
  by (induction ps arbitrary: i) simp_all

lemma grad_deposit:
  "k < length ps \<Longrightarrow>
   grad (deposit G i ps ! k) = Some (case grad (ps ! k) of None \<Rightarrow> G (i + k) | Some a \<Rightarrow> a + G (i + k))"
proof (induction ps arbitrary: i k)
  case Nil
  then show ?case by simp
next
  case (Cons p ps)
  show ?case
  proof (cases k)
    case 0
    then show ?thesis by (cases "grad p") simp_all
  next
    case (Suc j)
    with Cons.prems have "j < length ps" by simp
    from Cons.IH [OF this, of "Suc i"] Suc show ?thesis
      by (cases "grad (ps ! j)") simp_all
  qed
qed

lemma grad_sgd_update: "grad (sgd_update lr p) = grad p"
  by (simp add: sgd_update_def split: option.splits)

lemma grad_adam_update: "grad (adam_update lr p) = grad p"
  by (simp add: adam_update_def Let_def split: option.splits)

lemma optimizer_step_fields:
  "map grad (parameters (optimizer_step st)) = map grad (parameters st)"
  "length (parameters (optimizer_step st)) = length (parameters st)"
  "training (optimizer_step st) = training st" "generator (optimizer_step st) = generator st"
  "grad_enabled (optimizer_step st) = grad_enabled st" "optim (optimizer_step st) = optim st"
  "calls (optimizer_step st) = calls st @ [OptStep]"
  by (simp_all add: optimizer_step_def comp_def grad_sgd_update grad_adam_update split: optimizer.splits)

lemma loss_backward_effect:
  assumes "loss_backward N g0 st x l = Inr s"
  shows "grad_enabled st \<and> training s = training st \<and> grad_enabled s = grad_enabled st
       \<and> optim s = optim st \<and> generator s = generator st
       \<and> parameters s = deposit (autograd N (training st) g0 (map data (parameters st)) x l) 0 (parameters st)
       \<and> calls s = calls st @ [Backward (map grad (parameters st))]"
  using assms by (auto simp: loss_backward_def split: if_splits)

lemma training_step_stages:
  assumes "training_step N st x l = Returned s loss"
  obtains out st2 st3 st4 where
    "call_model N (zero_grad st) x = Inr (out, st2)"
    "criterion st2 out l = Inr (loss, st3)"
    "loss_backward N (generator st) st3 x l = Inr st4"
    "s = optimizer_step st4"
  using assms
  by (auto simp: training_step_def Let_def zero_grad_fields split: sum.splits prod.splits)

lemma training_step_returned:
  assumes "training_step N st x l = Returned s loss"
  shows "calls s = calls st @ step_calls (training st) loss (map grad (parameters (zero_grad st)))
       \<and> training s = training st \<and> grad_enabled s = grad_enabled st \<and> optim s = optim st
       \<and> length (parameters s) = length (parameters st)"
proof -
  from assms obtain out st2 st3 st4 where
    a: "call_model N (zero_grad st) x = Inr (out, st2)" and
    b: "criterion st2 out l = Inr (loss, st3)" and
    c: "loss_backward N (generator st) st3 x l = Inr st4" and
    d: "s = optimizer_step st4"
    by (rule training_step_stages)
  note A = call_model_effect [OF a] and B = criterion_effect [OF b] and C = loss_backward_effect [OF c]
  from A B C d show ?thesis
    by (simp add: optimizer_step_fields zero_grad_fields step_calls_def length_deposit)
qed

lemma training_step_fresh_gradient:
  assumes "training_step N st x l = Returned s loss" and "k < length (parameters st)"
  shows "grad (parameters s ! k)
         = Some (autograd N (training st) (generator st) (map data (parameters st)) x l k)"
proof -
  from assms(1) obtain out st2 st3 st4 where
    a: "call_model N (zero_grad st) x = Inr (out, st2)" and
    b: "criterion st2 out l = Inr (loss, st3)" and
    c: "loss_backward N (generator st) st3 x l = Inr st4" and
    d: "s = optimizer_step st4"
    by (rule training_step_stages)
  note A = call_model_effect [OF a] and B = criterion_effect [OF b] and C = loss_backward_effect [OF c]
  have p3: "parameters st3 = parameters (zero_grad st)" using A B by simp
  have t3: "training st3 = training st" using A B by (simp add: zero_grad_fields)
  let ?G = "autograd N (training st) (generator st) (map data (parameters st)) x l"
  have p4: "parameters st4 = deposit ?G 0 (parameters (zero_grad st))"
    using C by (simp add: p3 t3 zero_grad_fields)
  have k: "k < length (parameters (zero_grad st))" using assms(2) by (simp add: zero_grad_fields)
  have e: "emptied (grad (parameters (zero_grad st) ! k))"
    using emptied_zero_grad [of st] k by (simp add: list_all_length)
  have k4: "k < length (parameters st4)" using k by (simp add: p4 length_deposit)
  have "grad (parameters s ! k) = map grad (parameters (optimizer_step st4)) ! k"
    using k4 d by (simp add: optimizer_step_fields(2))
  also have "\<dots> = grad (parameters st4 ! k)"
    using k4 by (simp add: optimizer_step_fields(1))
  also have "\<dots> = Some (?G k)"
    using e by (auto simp: p4 grad_deposit [OF k] emptied_def)
  finally show ?thesis .
qed

lemma training_step_calls:
  "\<exists>ext. calls (machine_of (training_step N st x l)) = calls st @ ext
       \<and> (\<forall>gs. Backward gs \<in> set ext \<longrightarrow> list_all emptied gs)"
proof (cases "training_step N st x l")
  case (Returned s loss)
  from training_step_returned [OF this] Returned show ?thesis
    by (simp add: step_calls_def emptied_zero_grad)
next
  case (Raised e s)
  then show ?thesis
    by (auto simp: training_step_def Let_def zero_grad_fields
        dest!: call_model_effect criterion_effect
        split: sum.splits prod.splits)
qed

lemma train_loop_calls:
  "\<exists>ext. calls (machine_of (train_loop N st rl bs)) = calls st @ ext
       \<and> (\<forall>gs. Backward gs \<in> set ext \<longrightarrow> list_all emptied gs)"
proof (induction bs arbitrary: st rl)
  case Nil
  then show ?case by simp
next
  case (Cons b bs)
  obtain x l where b: "b = (x, l)" by (cases b)
  from training_step_calls [of N st x l] obtain e1 where
    e1: "calls (machine_of (training_step N st x l)) = calls st @ e1"
        "\<forall>gs. Backward gs \<in> set e1 \<longrightarrow> list_all emptied gs" by blast
  show ?case
  proof (cases "training_step N st x l")
    case (Raised e s)
    with e1 b show ?thesis by auto
  next
    case (Returned s loss)
    from Cons.IH [of s "sadd rl loss"] obtain e2 where
      e2: "calls (machine_of (train_loop N s (sadd rl loss) bs)) = calls s @ e2"
          "\<forall>gs. Backward gs \<in> set e2 \<longrightarrow> list_all emptied gs" by blast
    from e1 e2 Returned b show ?thesis by auto
  qed
qed

lemma train_loop_flat_calls:
  "\<exists>ext. calls (machine_of (train_loop_flat N st rl bs)) = calls st @ ext
       \<and> (\<forall>gs. Backward gs \<in> set ext \<longrightarrow> list_all emptied gs)"
proof (induction bs arbitrary: st rl)
  case Nil
  then show ?case by simp
next
  case (Cons b bs)
  obtain imgs l where b: "b = (imgs, l)" by (cases b)
  show ?case
  proof (cases "view_flat imgs")
    case (Inl e)
    with b show ?thesis by simp
  next
    case (Inr x)
    from training_step_calls [of N st x l] obtain e1 where
      e1: "calls (machine_of (training_step N st x l)) = calls st @ e1"
          "\<forall>gs. Backward gs \<in> set e1 \<longrightarrow> list_all emptied gs" by blast
    show ?thesis
    proof (cases "training_step N st x l")
      case (Raised e s)
      with e1 b Inr show ?thesis by auto
    next
      case (Returned s loss)
      from Cons.IH [of s "sadd rl loss"] obtain e2 where
        e2: "calls (machine_of (train_loop_flat N s (sadd rl loss) bs)) = calls s @ e2"
            "\<forall>gs. Backward gs \<in> set e2 \<longrightarrow> list_all emptied gs" by blast
      from e1 e2 Returned b Inr show ?thesis by auto
    qed
  qed
qed

lemmas machine_ops = training_step_def zero_grad_def call_model_def criterion_def loss_backward_def
  optimizer_step_def NLLLoss_def mean_of_def model_eval_def model_train_def no_grad_def

lemmas pass_ops = batch_accuracy_def topk1_def equals_def validation_v1_def validation_v2_def
  and_then_def Let_def

text \<open>
  C3. In every run of a training loop, and of the single training step, each call of
  \<open>loss.backward()\<close> finds every gradient buffer emptied, whatever the buffers held when the
  run began and however the run ends. So when a training step returns, every buffer holds
  the gradient of that step's batch alone, taken at the parameter values the step started
  from: nothing of an earlier batch is left in it.
\<close>

theorem gradients_emptied_before_backward:
  "(\<forall>gs. Backward gs \<in> set (drop (length (calls st)) (calls (machine_of (train_loop N st rl bs))))
          \<longrightarrow> list_all emptied gs)
   \<and> (\<forall>gs. Backward gs \<in> set (drop (length (calls st)) (calls (machine_of (train_loop_flat M st rl fbs))))
          \<longrightarrow> list_all emptied gs)
   \<and> (\<forall>gs. Backward gs \<in> set (drop (length (calls st)) (calls (machine_of (training_step N st x l))))
          \<longrightarrow> list_all emptied gs)
   \<and> (training_step N st x l = Returned s loss
        \<longrightarrow> (\<forall>k<length (parameters st).
               grad (parameters s ! k)
               = Some (autograd N (training st) (generator st) (map data (parameters st)) x l k)))"
proof -
  from train_loop_calls [of N st rl bs] have a:
    "\<forall>gs. Backward gs \<in> set (drop (length (calls st)) (calls (machine_of (train_loop N st rl bs))))
          \<longrightarrow> list_all emptied gs" by auto
  from train_loop_flat_calls [of M st rl fbs] have b:
    "\<forall>gs. Backward gs \<in> set (drop (length (calls st)) (calls (machine_of (train_loop_flat M st rl fbs))))
          \<longrightarrow> list_all emptied gs" by auto
  from training_step_calls [of N st x l] have c:
    "\<forall>gs. Backward gs \<in> set (drop (length (calls st)) (calls (machine_of (training_step N st x l))))
          \<longrightarrow> list_all emptied gs" by auto
  from a b c training_step_fresh_gradient [of N st x l s loss] show ?thesis by blast
qed

theorem gradients_emptied_before_backward_witness:
  "Backward [Some 0] \<in> set (calls (machine_of (train_loop scorer_net
       (scorer_machine (SGD (3 / 1000)) 0) (Num 0) [([[- 1]], [0]), ([[9 / 10]], [0])])))
   \<and> Backward [Some 0] \<in> set (calls (machine_of (train_loop_flat scorer_net
       (scorer_machine (SGD (3 / 1000)) 0) (Num 0) [([[[- 1]]], [0]), ([[[9 / 10]]], [0])])))
   \<and> list_all emptied [Some 0]
   \<and> returned (training_step scorer_net ((scorer_machine (SGD (3 / 1000)) 0)\<lparr>parameters :=
         [\<lparr>data = 0, grad = Some 5, opt_state = \<lparr>step = 0, exp_avg = 0, exp_avg_sq = 0\<rparr>\<rparr>]\<rparr>)
         [[- 1]] [0])
   \<and> map grad (parameters (machine_of (training_step scorer_net
         ((scorer_machine (SGD (3 / 1000)) 0)\<lparr>parameters :=
         [\<lparr>data = 0, grad = Some 5, opt_state = \<lparr>step = 0, exp_avg = 0, exp_avg_sq = 0\<rparr>\<rparr>]\<rparr>)
         [[- 1]] [0])))
     = [Some (autograd scorer_net True 0 [0] [[- 1]] [0] 0)]"
proof -
  let ?st = "scorer_machine (SGD (3 / 1000)) 0"
  let ?bs = "[([[- 1 :: real]], [0::nat]), ([[9 / 10]], [0])]"
  let ?fbs = "[([[[- 1 :: real]]], [0::nat]), ([[[9 / 10]]], [0])]"
  let ?x = "[[- 1 :: real]]"
  let ?st5 = "?st\<lparr>parameters :=
         [\<lparr>data = 0, grad = Some 5, opt_state = \<lparr>step = 0, exp_avg = 0, exp_avg_sq = 0\<rparr>\<rparr>]\<rparr>"
  let ?p = "sgd_update (3 / 1000)
              \<lparr>data = 0, grad = Some 1, opt_state = \<lparr>step = 0, exp_avg = 0, exp_avg_sq = 0\<rparr>\<rparr>"
  let ?s = "\<lparr>parameters = [?p],
          optim = SGD (3 / 1000), training = True, grad_enabled = True, generator = 0,
          calls = step_calls True (Num 0) [Some 0]\<rparr>"
  have run: "calls (machine_of (train_loop scorer_net ?st (Num 0) ?bs))
      = [ZeroGrad, Forward True True, Criterion (Num 0), Backward [None], OptStep,
         ZeroGrad, Forward True True, Criterion (Num (- (data ?p * (9 / 10)))),
         Backward [Some 0], OptStep]"
    by (simp add: scorer_net_def scorer_machine_def machine_ops sgd_update_def)
  have frun: "calls (machine_of (train_loop_flat scorer_net ?st (Num 0) ?fbs))
      = [ZeroGrad, Forward True True, Criterion (Num 0), Backward [None], OptStep,
         ZeroGrad, Forward True True, Criterion (Num (- (data ?p * (9 / 10)))),
         Backward [Some 0], OptStep]"
    by (simp add: scorer_net_def scorer_machine_def machine_ops view_flat_def sgd_update_def)
  have step: "training_step scorer_net ?st5 ?x [0] = Returned ?s (Num 0)"
    by (simp add: scorer_net_def scorer_machine_def machine_ops step_calls_def)
  have mem: "Backward [Some 0] \<in> set (drop (length (calls ?st))
       (calls (machine_of (train_loop scorer_net ?st (Num 0) ?bs))))"
    unfolding run by (simp add: scorer_machine_def)
  have fmem: "Backward [Some 0] \<in> set (drop (length (calls ?st))
       (calls (machine_of (train_loop_flat scorer_net ?st (Num 0) ?fbs))))"
    unfolding frun by (simp add: scorer_machine_def)
  note inst1 = gradients_emptied_before_backward
    [where st = ?st and N = scorer_net and rl = "Num 0" and bs = ?bs and M = scorer_net
       and fbs = ?fbs and x = ?x and l = "[0]"]
  note inst2 = gradients_emptied_before_backward
    [where st = ?st5 and N = scorer_net and x = ?x and l = "[0]" and s = ?s
       and loss = "Num 0", THEN conjunct2, THEN conjunct2, THEN conjunct2, THEN mp,
     OF step]
  from inst1 mem have e: "list_all emptied [Some 0]" by blast
  from inst1 fmem have "list_all emptied [Some 0]" by blast
  from inst2 have g: "grad (parameters ?s ! 0) = Some (autograd scorer_net True 0 [0] ?x [0] 0)"
    by (simp add: scorer_machine_def)
  from run have r: "Backward [Some 0]
      \<in> set (calls (machine_of (train_loop scorer_net ?st (Num 0) ?bs)))"
    by simp
  from frun have fr: "Backward [Some 0]
      \<in> set (calls (machine_of (train_loop_flat scorer_net ?st (Num 0) ?fbs)))"
    by simp
  from r fr e g show ?thesis unfolding step by simp
qed

subsection \<open>The order of the calls\<close>

lemma deposit_emptied:
  "list_all (\<lambda>p. emptied (grad p)) ps \<Longrightarrow>
   deposit G i ps = map2 (\<lambda>p k. p\<lparr>grad := Some (G k)\<rparr>) ps [i..<i + length ps]"
proof (induction ps arbitrary: i)
  case Nil
  then show ?case by simp
next
  case (Cons p ps)
  from Cons.prems have e: "emptied (grad p)" and r: "list_all (\<lambda>p. emptied (grad p)) ps" by simp_all
  have u: "[i..<i + length (p # ps)] = i # [Suc i..<Suc i + length ps]"
    using upt_conv_Cons [of i "Suc i + length ps"] by simp
  from e have h: "p\<lparr>grad := Some (case grad p of None \<Rightarrow> G i | Some a \<Rightarrow> a + G i)\<rparr>
                  = p\<lparr>grad := Some (G i)\<rparr>"
    by (auto simp: emptied_def)
  show ?case unfolding u using Cons.IH [OF r, of "Suc i"] h by simp
qed

lemma deposit_zero_grad:
  "deposit G 0 (parameters (zero_grad st))
   = map2 (\<lambda>p k. p\<lparr>grad := Some (G k)\<rparr>) (parameters st) [0..<length (parameters st)]"
proof -
  have e: "list_all (\<lambda>p. emptied (grad p)) (parameters (zero_grad st))"
    using emptied_zero_grad [of st] by (simp add: list_all_iff)
  have "map2 (\<lambda>p k. p\<lparr>grad := Some (G k)\<rparr>) (map (\<lambda>p. p\<lparr>grad := map_option (\<lambda>g. 0) (grad p)\<rparr>) ps) ks
        = map2 (\<lambda>p k. p\<lparr>grad := Some (G k)\<rparr>) ps ks" for ps :: "parameter list" and ks
    by (induction ps ks rule: list_induct2') simp_all
  with deposit_emptied [OF e, of G 0] show ?thesis
    by (simp add: zero_grad_def)
qed

lemma training_step_step_on:
  assumes "training_step N st x l = Returned s loss"
  shows "step_on N st (x, l) loss s"
proof -
  from assms obtain out st2 st3 st4 where
    a: "call_model N (zero_grad st) x = Inr (out, st2)" and
    b: "criterion st2 out l = Inr (loss, st3)" and
    c: "loss_backward N (generator st) st3 x l = Inr st4" and
    d: "s = optimizer_step st4"
    by (rule training_step_stages)
  note A = call_model_effect [OF a] and B = criterion_effect [OF b] and C = loss_backward_effect [OF c]
  note R = training_step_returned [OF assms]
  have out: "model_output N st x = Inr out"
    using a by (auto simp: model_output_def call_model_def zero_grad_fields
        split: if_splits sum.splits prod.splits)
  have p3: "parameters st3 = parameters (zero_grad st)" using A B by simp
  have t3: "training st3 = training st" using A B by (simp add: zero_grad_fields)
  have p4: "parameters st4 = parameters (with_gradient (batch_gradient N st (x, l)) st)"
    using C by (simp add: p3 t3 zero_grad_fields deposit_zero_grad with_gradient_def
        batch_gradient_def)
  have o4: "optim st4 = optim st" using A B C by (simp add: zero_grad_fields)
  have ow: "optim (with_gradient (batch_gradient N st (x, l)) st) = optim st"
    by (simp add: with_gradient_def)
  have "parameters s = parameters (optimizer_step (with_gradient (batch_gradient N st (x, l)) st))"
    unfolding d using p4 o4 ow by (cases "optim st") (simp_all add: optimizer_step_def)
  with out R B show ?thesis by (simp add: step_on_def)
qed

lemma training_step_raised:
  assumes "training_step N st x l = Raised e s"
  shows "(\<exists>k v. 0 < k \<and> k \<le> 3
            \<and> calls s = calls st @ take k [ZeroGrad, Forward (training st) (grad_enabled st), Criterion v])
       \<and> map data (parameters s) = map data (parameters st)
       \<and> training s = training st \<and> grad_enabled s = grad_enabled st \<and> optim s = optim st
       \<and> length (parameters s) = length (parameters st)"
proof (cases "call_model N (zero_grad st) x")
  case (Inl e')
  with assms have s: "s = zero_grad st" by (simp add: training_step_def Let_def)
  have "(0::nat) < 1 \<and> (1::nat) \<le> 3
      \<and> calls s = calls st @ take 1 [ZeroGrad, Forward (training st) (grad_enabled st), Criterion NaN]"
    by (simp add: s zero_grad_fields)
  then have "\<exists>k v. 0 < k \<and> k \<le> 3
            \<and> calls s = calls st @ take k [ZeroGrad, Forward (training st) (grad_enabled st), Criterion v]"
    by blast
  then show ?thesis by (simp add: s zero_grad_fields)
next
  case (Inr q)
  obtain out st2 where q: "q = (out, st2)" by (cases q)
  note A = call_model_effect [OF Inr [unfolded q]]
  show ?thesis
  proof (cases "criterion st2 out l")
    case (Inl e')
    with assms Inr q have s: "s = st2" by (simp add: training_step_def Let_def)
    have "(0::nat) < 2 \<and> (2::nat) \<le> 3
      \<and> calls s = calls st @ take 2 [ZeroGrad, Forward (training st) (grad_enabled st), Criterion NaN]"
      using A by (simp add: s zero_grad_fields)
    then have "\<exists>k v. 0 < k \<and> k \<le> 3
            \<and> calls s = calls st @ take k [ZeroGrad, Forward (training st) (grad_enabled st), Criterion v]"
      by blast
    then show ?thesis using A by (simp add: s zero_grad_fields)
  next
    case c: (Inr q2)
    obtain loss st3 where q2: "q2 = (loss, st3)" by (cases q2)
    note B = criterion_effect [OF c [unfolded q2]]
    from assms Inr q c q2 have s: "s = st3"
      by (simp add: training_step_def Let_def split: sum.splits)
    have "(0::nat) < 3 \<and> (3::nat) \<le> 3
      \<and> calls s = calls st @ take 3 [ZeroGrad, Forward (training st) (grad_enabled st), Criterion loss]"
      using A B by (simp add: s zero_grad_fields)
    then have "\<exists>k v. 0 < k \<and> k \<le> 3
            \<and> calls s = calls st @ take k [ZeroGrad, Forward (training st) (grad_enabled st), Criterion v]"
      by blast
    then show ?thesis using A B by (simp add: s zero_grad_fields)
  qed
qed

lemma train_loop_steps_returned:
  assumes "train_loop N st rl bs = Returned s rl'"
  shows "\<exists>rs. steps_on N st bs rs \<and> length rs = length bs \<and> s = last (st # map snd rs)
            \<and> rl' = foldl sadd rl (map fst rs)"
  using assms
proof (induction bs arbitrary: st rl)
  case Nil
  have "steps_on N st [] [] \<and> length ([] :: (scalar \<times> machine) list) = length ([] :: ('a \<times> nat list) list)
      \<and> s = last (st # map snd []) \<and> rl' = foldl sadd rl (map fst ([] :: (scalar \<times> machine) list))"
    using Nil by simp
  then show ?case by blast
next
  case (Cons b bs)
  obtain x l where b: "b = (x, l)" by (cases b)
  from Cons.prems b obtain s1 loss where
    s1: "training_step N st x l = Returned s1 loss" and
    rest: "train_loop N s1 (sadd rl loss) bs = Returned s rl'"
    by (auto split: outcome.splits)
  from Cons.IH [OF rest] obtain rs where
    r: "steps_on N s1 bs rs" "length rs = length bs" "s = last (s1 # map snd rs)"
       "rl' = foldl sadd (sadd rl loss) (map fst rs)" by blast
  have "steps_on N st (b # bs) ((loss, s1) # rs) \<and> length ((loss, s1) # rs) = length (b # bs)
      \<and> s = last (st # map snd ((loss, s1) # rs))
      \<and> rl' = foldl sadd rl (map fst ((loss, s1) # rs))"
    using r training_step_step_on [OF s1] b by simp
  then show ?case by blast
qed

lemma train_loop_steps_raised:
  assumes "train_loop N st rl bs = Raised e s"
  shows "\<exists>rs. steps_on N st bs rs \<and> length rs < length bs
            \<and> training_step N (last (st # map snd rs)) (fst (bs ! length rs)) (snd (bs ! length rs))
              = Raised e s"
  using assms
proof (induction bs arbitrary: st rl)
  case Nil
  then show ?case by simp
next
  case (Cons b bs)
  obtain x l where b: "b = (x, l)" by (cases b)
  show ?case
  proof (cases "training_step N st x l")
    case (Raised e' s')
    with Cons.prems b have "training_step N st x l = Raised e s" by simp
    then have "steps_on N st (b # bs) [] \<and> length ([] :: (scalar \<times> machine) list) < length (b # bs)
        \<and> training_step N (last (st # map snd [])) (fst ((b # bs) ! length ([] :: (scalar \<times> machine) list)))
             (snd ((b # bs) ! length ([] :: (scalar \<times> machine) list))) = Raised e s"
      using b by simp
    then show ?thesis by blast
  next
    case (Returned s1 loss)
    with Cons.prems b have rest: "train_loop N s1 (sadd rl loss) bs = Raised e s" by simp
    from Cons.IH [OF rest] obtain rs where
      r: "steps_on N s1 bs rs" "length rs < length bs"
         "training_step N (last (s1 # map snd rs)) (fst (bs ! length rs)) (snd (bs ! length rs))
              = Raised e s" by blast
    have "steps_on N st (b # bs) ((loss, s1) # rs) \<and> length ((loss, s1) # rs) < length (b # bs)
        \<and> training_step N (last (st # map snd ((loss, s1) # rs)))
             (fst ((b # bs) ! length ((loss, s1) # rs))) (snd ((b # bs) ! length ((loss, s1) # rs)))
           = Raised e s"
      using r training_step_step_on [OF Returned] b by simp
    then show ?thesis by blast
  qed
qed

lemma steps_on_calls:
  assumes "steps_on N st bs rs"
  shows "calls (last (st # map snd rs))
         = calls st @ concat (map2 (step_calls (training st)) (map fst rs)
             (map (\<lambda>m. map grad (parameters (zero_grad m))) (butlast (st # map snd rs))))
       \<and> training (last (st # map snd rs)) = training st
       \<and> grad_enabled (last (st # map snd rs)) = grad_enabled st
       \<and> optim (last (st # map snd rs)) = optim st"
  using assms
proof (induction rs arbitrary: st bs)
  case Nil
  then show ?case by simp
next
  case (Cons r rs)
  then obtain b bs' where bs: "bs = b # bs'" by (cases bs) auto
  from Cons.prems bs have one: "step_on N st b (fst r) (snd r)" and rest: "steps_on N (snd r) bs' rs"
    by simp_all
  from one have o: "calls (snd r) = calls st @ step_calls (training st) (fst r) (map grad (parameters (zero_grad st)))"
    "training (snd r) = training st" "grad_enabled (snd r) = grad_enabled st" "optim (snd r) = optim st"
    by (simp_all add: step_on_def)
  from Cons.IH [OF rest] o show ?case by simp
qed

lemma train_loop_flat_as_train_loop:
  "list_all (\<lambda>b. fst b \<noteq> []) fbs \<Longrightarrow>
   train_loop_flat M st rl fbs = train_loop M st rl (map flat_batch fbs)"
proof (induction fbs arbitrary: st rl)
  case Nil
  then show ?case by simp
next
  case (Cons b fbs)
  obtain imgs l where b: "b = (imgs, l)" by (cases b)
  from Cons.prems b have ne: "imgs \<noteq> []" and r: "list_all (\<lambda>b. fst b \<noteq> []) fbs" by simp_all
  show ?case
    using ne Cons.IH [OF r] b
    by (simp add: flat_batch_def view_flat_def split: outcome.splits)
qed

lemma train_loop_flat_empty_batch:
  "list_all (\<lambda>b. fst b \<noteq> []) pre \<Longrightarrow>
   train_loop_flat M st rl (pre @ ([], l) # post)
   = (case train_loop M st rl (map flat_batch pre) of
        Raised e s \<Rightarrow> Raised e s
      | Returned s rl' \<Rightarrow> Raised SizeMismatch s)"
proof (induction pre arbitrary: st rl)
  case Nil
  then show ?case by (simp add: view_flat_def)
next
  case (Cons b pre)
  obtain imgs l' where b: "b = (imgs, l')" by (cases b)
  from Cons.prems b have ne: "imgs \<noteq> []" and r: "list_all (\<lambda>b. fst b \<noteq> []) pre" by simp_all
  show ?case
    using ne Cons.IH [OF r] b
    by (simp add: flat_batch_def view_flat_def split: outcome.splits)
qed

lemma epoch_part3_value:
  assumes "epoch_part3 M st fbs = Returned s v"
  shows "\<exists>rl. train_loop_flat M st (Num 0) fbs = Returned s rl \<and> per_batch rl (length fbs) = Inr v"
  using assms by (auto simp: epoch_part3_def split: outcome.splits sum.splits)

text \<open>
  C4, as amended. A training step that returns is a step on its batch in the sense of
  \<open>step_on\<close>: it has made the five library calls in the order clear the gradients, compute
  the output, compute the loss, differentiate, update; the loss is the criterion's value
  for the model's output on this batch's inputs against this batch's labels, at the
  parameter values from before the update; and the update is the optimizer's, with the
  gradient of this batch in the buffers. A step that raises has made the first one, two or
  three of the calls and has changed no parameter value. A loop over a loader takes these
  steps on the batches in the loader's order, each from the machine the step before it
  left: all of them when it returns, and then its value is the running loss with the
  losses of the batches added in that order; all before the batch whose step raises when
  it raises. The loop of Part 3 is that loop on the flattened batches, and raises at the
  first batch without images. An epoch of Part 3 that returns gives the running loss
  divided by the number of batches. What a loop writes is more than the parameter values
  (see the counterexample below): the gradient buffers and the optimizer's entries change
  too; the mode flag, the gradient-tracking flag and the optimizer's configuration stay.
\<close>

theorem training_epoch_order:
  "(training_step N st x l = Returned s loss \<longrightarrow> step_on N st (x, l) loss s)
   \<and> (training_step N st x l = Raised e s \<longrightarrow>
        (\<exists>k v. 0 < k \<and> k \<le> 3
            \<and> calls s = calls st @ take k [ZeroGrad, Forward (training st) (grad_enabled st),
                                          Criterion v])
        \<and> map data (parameters s) = map data (parameters st))
   \<and> (train_loop N st rl bs = Returned s rl' \<longrightarrow>
        (\<exists>rs. steps_on N st bs rs \<and> length rs = length bs \<and> s = last (st # map snd rs)
            \<and> rl' = foldl sadd rl (map fst rs)
            \<and> calls s = calls st @ concat (map2 (step_calls (training st)) (map fst rs)
                  (map (\<lambda>m. map grad (parameters (zero_grad m))) (butlast (st # map snd rs)))))
        \<and> training s = training st \<and> grad_enabled s = grad_enabled st \<and> optim s = optim st)
   \<and> (train_loop N st rl bs = Raised e s \<longrightarrow>
        (\<exists>rs. steps_on N st bs rs \<and> length rs < length bs
            \<and> training_step N (last (st # map snd rs)) (fst (bs ! length rs))
                 (snd (bs ! length rs)) = Raised e s))
   \<and> (list_all (\<lambda>b. fst b \<noteq> []) fbs \<longrightarrow>
        train_loop_flat M st rl fbs = train_loop M st rl (map flat_batch fbs))
   \<and> (list_all (\<lambda>b. fst b \<noteq> []) pre \<longrightarrow>
        train_loop_flat M st rl (pre @ ([], l') # post)
        = (case train_loop M st rl (map flat_batch pre) of
             Raised e s \<Rightarrow> Raised e s
           | Returned s rl' \<Rightarrow> Raised SizeMismatch s))
   \<and> (epoch_part3 M st fbs = Returned s v \<longrightarrow>
        (\<exists>rl. train_loop_flat M st (Num 0) fbs = Returned s rl
            \<and> per_batch rl (length fbs) = Inr v))"
proof -
  have ret: "(\<exists>rs. steps_on N st bs rs \<and> length rs = length bs \<and> s = last (st # map snd rs)
            \<and> rl' = foldl sadd rl (map fst rs)
            \<and> calls s = calls st @ concat (map2 (step_calls (training st)) (map fst rs)
                  (map (\<lambda>m. map grad (parameters (zero_grad m))) (butlast (st # map snd rs)))))
        \<and> training s = training st \<and> grad_enabled s = grad_enabled st \<and> optim s = optim st"
    if run: "train_loop N st rl bs = Returned s rl'"
  proof -
    from train_loop_steps_returned [OF run] obtain rs where
      r: "steps_on N st bs rs" "length rs = length bs" "s = last (st # map snd rs)"
         "rl' = foldl sadd rl (map fst rs)" by blast
    from steps_on_calls [OF r(1)] r show ?thesis by blast
  qed
  from ret training_step_step_on [of N st x l s loss] training_step_raised [of N st x l e s]
    train_loop_steps_raised [of N st rl bs e s] train_loop_flat_as_train_loop [of fbs M st rl]
    train_loop_flat_empty_batch [of pre M st rl l' post] epoch_part3_value [of M st fbs s v]
  show ?thesis by blast
qed

theorem training_epoch_order_witness:
  "step_on scorer_net (scorer_machine (SGD (1 / 100)) 0) ([[- 1]], [0]) (Num 0)
     (machine_of (training_step scorer_net (scorer_machine (SGD (1 / 100)) 0) [[- 1]] [0]))
   \<and> \<not> returned (training_step scorer_net (scorer_machine (SGD (1 / 100)) 0) [[- 1]] [2])
   \<and> map data (parameters (machine_of
        (training_step scorer_net (scorer_machine (SGD (1 / 100)) 0) [[- 1]] [2]))) = [0]
   \<and> returned (train_loop scorer_net (scorer_machine (Adam (3 / 1000)) 0) (Num 0)
        [([[- 1]], [0]), ([[9 / 10]], [0])])
   \<and> (\<exists>rs. steps_on scorer_net (scorer_machine (Adam (3 / 1000)) 0)
               [([[- 1]], [0]), ([[9 / 10]], [0])] rs
          \<and> length rs = 2
          \<and> machine_of (train_loop scorer_net (scorer_machine (Adam (3 / 1000)) 0) (Num 0)
               [([[- 1]], [0]), ([[9 / 10]], [0])])
            = last (scorer_machine (Adam (3 / 1000)) 0 # map snd rs))
   \<and> \<not> returned (train_loop scorer_net (scorer_machine (Adam (3 / 1000)) 0) (Num 0)
        [([[- 1]], [0]), ([[9 / 10]], [2])])
   \<and> (\<exists>rs. steps_on scorer_net (scorer_machine (Adam (3 / 1000)) 0)
               [([[- 1]], [0]), ([[9 / 10]], [2])] rs
          \<and> length rs < 2)
   \<and> train_loop_flat scorer_net (scorer_machine (SGD (3 / 1000)) 0) (Num 0)
        [([[[- 1]]], [0]), ([[[9 / 10]]], [0])]
      = train_loop scorer_net (scorer_machine (SGD (3 / 1000)) 0) (Num 0)
          (map flat_batch [([[[- 1]]], [0]), ([[[9 / 10]]], [0])])
   \<and> \<not> returned (train_loop_flat scorer_net (scorer_machine (SGD (3 / 1000)) 0) (Num 0)
        ([([[[- 1]]], [0])] @ ([], [0]) # [([[[9 / 10]]], [0])]))
   \<and> returned (epoch_part3 scorer_net (scorer_machine (SGD (3 / 1000)) 0)
        [([[[- 1]]], [0]), ([[[9 / 10]]], [0])])
   \<and> (\<exists>rl. train_loop_flat scorer_net (scorer_machine (SGD (3 / 1000)) 0) (Num 0)
               [([[[- 1]]], [0]), ([[[9 / 10]]], [0])]
             = Returned (machine_of (epoch_part3 scorer_net (scorer_machine (SGD (3 / 1000)) 0)
                 [([[[- 1]]], [0]), ([[[9 / 10]]], [0])])) rl)"
proof -
  let ?h = "scorer_machine (SGD (1 / 100)) 0" and ?a = "scorer_machine (Adam (3 / 1000)) 0"
  let ?g = "scorer_machine (SGD (3 / 1000)) 0"
  let ?x = "[[- 1 :: real]]"
  let ?bs = "[([[- 1 :: real]], [0::nat]), ([[9 / 10]], [0])]"
  let ?cs = "[([[- 1 :: real]], [0::nat]), ([[9 / 10]], [2])]"
  let ?fbs = "[([[[- 1 :: real]]], [0::nat]), ([[[9 / 10]]], [0])]"
  let ?pre = "[([[[- 1 :: real]]], [0::nat])]" and ?post = "[([[[9 / 10 :: real]]], [0::nat])]"
  have r1: "training_step scorer_net ?h ?x [0]
      = Returned (machine_of (training_step scorer_net ?h ?x [0])) (Num 0)"
    by (simp add: scorer_net_def scorer_machine_def machine_ops)
  from training_epoch_order [where N = scorer_net and st = ?h and x = ?x and l = "[0]"
      and s = "machine_of (training_step scorer_net ?h ?x [0])" and loss = "Num 0",
      THEN conjunct1, THEN mp, OF r1]
  have w1: "step_on scorer_net ?h (?x, [0]) (Num 0) (machine_of (training_step scorer_net ?h ?x [0]))" .
  have r2: "training_step scorer_net ?h ?x [2]
      = Raised TargetOutOfBounds (machine_of (training_step scorer_net ?h ?x [2]))"
    by (simp add: scorer_net_def scorer_machine_def machine_ops)
  from training_epoch_order [where N = scorer_net and st = ?h and x = ?x and l = "[2]"
      and s = "machine_of (training_step scorer_net ?h ?x [2])" and e = TargetOutOfBounds,
      THEN conjunct2, THEN conjunct1, THEN mp, OF r2]
  have "map data (parameters (machine_of (training_step scorer_net ?h ?x [2])))
        = map data (parameters ?h)" by blast
  then have w2: "map data (parameters (machine_of (training_step scorer_net ?h ?x [2]))) = [0]"
    by (simp add: scorer_machine_def)
  have n2: "\<not> returned (training_step scorer_net ?h ?x [2])"
    by (simp add: scorer_net_def scorer_machine_def machine_ops)
  have r3: "returned (train_loop scorer_net ?a (Num 0) ?bs)"
    by (simp add: scorer_net_def scorer_machine_def machine_ops)
  then obtain s3 v3 where run3: "train_loop scorer_net ?a (Num 0) ?bs = Returned s3 v3"
    by (cases "train_loop scorer_net ?a (Num 0) ?bs") auto
  from training_epoch_order [where N = scorer_net and st = ?a and rl = "Num 0" and bs = ?bs
      and s = s3 and rl' = v3, THEN conjunct2, THEN conjunct2, THEN conjunct1, THEN mp, OF run3]
  have "\<exists>rs. steps_on scorer_net ?a ?bs rs \<and> length rs = length ?bs
          \<and> s3 = last (?a # map snd rs)" by blast
  then have e3: "\<exists>rs. steps_on scorer_net ?a ?bs rs \<and> length rs = 2
          \<and> s3 = last (?a # map snd rs)" by (auto simp: numeral_2_eq_2)
  have w3: "\<exists>rs. steps_on scorer_net ?a ?bs rs \<and> length rs = 2
          \<and> machine_of (train_loop scorer_net ?a (Num 0) ?bs) = last (?a # map snd rs)"
    unfolding run3 machine_of.simps by (rule e3)
  have n4: "\<not> returned (train_loop scorer_net ?a (Num 0) ?cs)"
    by (simp add: scorer_net_def scorer_machine_def machine_ops)
  then obtain e4 s4 where run4: "train_loop scorer_net ?a (Num 0) ?cs = Raised e4 s4"
    by (cases "train_loop scorer_net ?a (Num 0) ?cs") auto
  from training_epoch_order [where N = scorer_net and st = ?a and rl = "Num 0" and bs = ?cs
      and s = s4 and e = e4, THEN conjunct2, THEN conjunct2, THEN conjunct2, THEN conjunct1,
      THEN mp, OF run4]
  have "\<exists>rs. steps_on scorer_net ?a ?cs rs \<and> length rs < length ?cs" by blast
  then have w4: "\<exists>rs. steps_on scorer_net ?a ?cs rs \<and> length rs < 2"
    by (auto simp: numeral_2_eq_2)
  have ne: "list_all (\<lambda>b. fst b \<noteq> []) ?fbs" "list_all (\<lambda>b. fst b \<noteq> []) ?pre" by simp_all
  from training_epoch_order [where M = scorer_net and st = ?g and rl = "Num 0" and fbs = ?fbs,
      THEN conjunct2, THEN conjunct2, THEN conjunct2, THEN conjunct2, THEN conjunct1, THEN mp,
      OF ne(1)]
  have w5: "train_loop_flat scorer_net ?g (Num 0) ?fbs
      = train_loop scorer_net ?g (Num 0) (map flat_batch ?fbs)" .
  from training_epoch_order [where M = scorer_net and st = ?g and rl = "Num 0" and pre = ?pre
      and l' = "[0]" and post = ?post,
      THEN conjunct2, THEN conjunct2, THEN conjunct2, THEN conjunct2, THEN conjunct2,
      THEN conjunct1, THEN mp, OF ne(2)]
  have "train_loop_flat scorer_net ?g (Num 0) (?pre @ ([], [0]) # ?post)
      = (case train_loop scorer_net ?g (Num 0) (map flat_batch ?pre) of
           Raised e s \<Rightarrow> Raised e s
         | Returned s rl' \<Rightarrow> Raised SizeMismatch s)" .
  then have w6: "\<not> returned (train_loop_flat scorer_net ?g (Num 0) (?pre @ ([], [0]) # ?post))"
    by (simp split: outcome.splits)
  have r7: "returned (epoch_part3 scorer_net ?g ?fbs)"
    by (simp add: scorer_net_def scorer_machine_def machine_ops view_flat_def epoch_part3_def)
  then obtain s7 v7 where run7: "epoch_part3 scorer_net ?g ?fbs = Returned s7 v7"
    by (cases "epoch_part3 scorer_net ?g ?fbs") auto
  from training_epoch_order [where M = scorer_net and st = ?g and fbs = ?fbs and s = s7 and v = v7,
      THEN conjunct2, THEN conjunct2, THEN conjunct2, THEN conjunct2, THEN conjunct2,
      THEN conjunct2, THEN mp, OF run7]
  have e7: "\<exists>rl. train_loop_flat scorer_net ?g (Num 0) ?fbs = Returned s7 rl" by blast
  have w7: "\<exists>rl. train_loop_flat scorer_net ?g (Num 0) ?fbs
      = Returned (machine_of (epoch_part3 scorer_net ?g ?fbs)) rl"
    unfolding run7 machine_of.simps by (rule e7)
  from w1 n2 w2 r3 w3 n4 w4 w5 w6 r7 w7 show ?thesis by blast
qed

text \<open>
  The claim's last clause fails as it is stated: one training step of the Adam cell on
  the one-weight network finds the gradient buffer absent and the optimizer's entry at
  its initial step count, and leaves the buffer holding 1 and the entry with a step count
  of 1. The loop writes state other than the parameter values.
\<close>

theorem training_writes_more_than_values:
  "returned (train_loop scorer_net (scorer_machine (Adam (3 / 1000)) 0) (Num 0) [([[- 1]], [0])])
   \<and> map grad (parameters (scorer_machine (Adam (3 / 1000)) 0)) = [None]
   \<and> map grad (parameters (machine_of
        (train_loop scorer_net (scorer_machine (Adam (3 / 1000)) 0) (Num 0) [([[- 1]], [0])])))
       = [Some 1]
   \<and> step (opt_state (hd (parameters (scorer_machine (Adam (3 / 1000)) 0)))) = 0
   \<and> step (opt_state (hd (parameters (machine_of
        (train_loop scorer_net (scorer_machine (Adam (3 / 1000)) 0) (Num 0) [([[- 1]], [0])])))))
       = 1"
  by (simp add: scorer_net_def scorer_machine_def machine_ops adam_update_def Let_def)

section \<open>Properties of the validation passes\<close>

lemma validation_loop_v1_frame:
  "\<exists>ext. calls (machine_of (validation_loop_v1 N st acc bs)) = calls st @ ext
       \<and> list_all (pass_call (training st) (grad_enabled st)) ext
       \<and> parameters (machine_of (validation_loop_v1 N st acc bs)) = parameters st
       \<and> optim (machine_of (validation_loop_v1 N st acc bs)) = optim st
       \<and> training (machine_of (validation_loop_v1 N st acc bs)) = training st
       \<and> grad_enabled (machine_of (validation_loop_v1 N st acc bs)) = grad_enabled st"
proof (induction bs arbitrary: st acc)
  case Nil
  then show ?case by simp
next
  case (Cons b bs)
  obtain x l where b: "b = (x, l)" by (cases b)
  show ?case
  proof (cases "call_model N st x")
    case (Inl e)
    with b show ?thesis by simp
  next
    case (Inr r)
    obtain out s1 where r: "r = (out, s1)" by (cases r)
    note A = call_model_effect [OF Inr [unfolded r]]
    show ?thesis
    proof (cases "batch_accuracy out l")
      case (Inl e)
      with b Inr r A show ?thesis by simp
    next
      case a: (Inr a)
      from Cons.IH [of s1 "Some a"] obtain ext where
        "calls (machine_of (validation_loop_v1 N s1 (Some a) bs)) = calls s1 @ ext"
        "list_all (pass_call (training s1) (grad_enabled s1)) ext"
        "parameters (machine_of (validation_loop_v1 N s1 (Some a) bs)) = parameters s1"
        "optim (machine_of (validation_loop_v1 N s1 (Some a) bs)) = optim s1"
        "training (machine_of (validation_loop_v1 N s1 (Some a) bs)) = training s1"
        "grad_enabled (machine_of (validation_loop_v1 N s1 (Some a) bs)) = grad_enabled s1"
        by blast
      with b Inr r A a show ?thesis by simp
    qed
  qed
qed

lemma validation_loop_v2_frame:
  "\<exists>ext. calls (machine_of (validation_loop_v2 N st tlo acc bs)) = calls st @ ext
       \<and> list_all (pass_call (training st) (grad_enabled st)) ext
       \<and> parameters (machine_of (validation_loop_v2 N st tlo acc bs)) = parameters st
       \<and> optim (machine_of (validation_loop_v2 N st tlo acc bs)) = optim st
       \<and> training (machine_of (validation_loop_v2 N st tlo acc bs)) = training st
       \<and> grad_enabled (machine_of (validation_loop_v2 N st tlo acc bs)) = grad_enabled st"
proof (induction bs arbitrary: st tlo acc)
  case Nil
  then show ?case by simp
next
  case (Cons b bs)
  obtain x l where b: "b = (x, l)" by (cases b)
  show ?case
  proof (cases "call_model N st x")
    case (Inl e)
    with b show ?thesis by simp
  next
    case (Inr r)
    obtain out s1 where r: "r = (out, s1)" by (cases r)
    note A = call_model_effect [OF Inr [unfolded r]]
    show ?thesis
    proof (cases "criterion s1 out l")
      case (Inl e)
      with b Inr r A show ?thesis by simp
    next
      case c: (Inr q)
      obtain loss s2 where q: "q = (loss, s2)" by (cases q)
      note B = criterion_effect [OF c [unfolded q]]
      show ?thesis
      proof (cases "batch_accuracy out l")
        case (Inl e)
        with b Inr r A c q B show ?thesis by simp
      next
        case a: (Inr a)
        from Cons.IH [of s2 "sadd tlo loss" "sadd acc a"] obtain ext where
          "calls (machine_of (validation_loop_v2 N s2 (sadd tlo loss) (sadd acc a) bs)) = calls s2 @ ext"
          "list_all (pass_call (training s2) (grad_enabled s2)) ext"
          "parameters (machine_of (validation_loop_v2 N s2 (sadd tlo loss) (sadd acc a) bs)) = parameters s2"
          "optim (machine_of (validation_loop_v2 N s2 (sadd tlo loss) (sadd acc a) bs)) = optim s2"
          "training (machine_of (validation_loop_v2 N s2 (sadd tlo loss) (sadd acc a) bs)) = training s2"
          "grad_enabled (machine_of (validation_loop_v2 N s2 (sadd tlo loss) (sadd acc a) bs)) = grad_enabled s2"
          by blast
        with b Inr r A c q B a show ?thesis by simp
      qed
    qed
  qed
qed

lemma validation_loop_v2_returned:
  assumes "validation_loop_v2 N st tlo acc bs = Returned s r" and "\<not> training st"
    and "\<not> grad_enabled st"
  shows "\<exists>vs. length vs = length bs \<and> calls s = calls st @ concat (map eval_calls vs)"
  using assms
proof (induction bs arbitrary: st tlo acc)
  case Nil
  then show ?case by simp
next
  case (Cons b bs)
  obtain x l where b: "b = (x, l)" by (cases b)
  from Cons.prems(1) b obtain out s1 loss s2 a where
    m: "call_model N st x = Inr (out, s1)" and
    c: "criterion s1 out l = Inr (loss, s2)" and
    rest: "validation_loop_v2 N s2 (sadd tlo loss) (sadd acc a) bs = Returned s r"
    by (auto split: sum.splits prod.splits)
  note A = call_model_effect [OF m] and B = criterion_effect [OF c]
  from A B Cons.prems have "\<not> training s2" "\<not> grad_enabled s2" by simp_all
  from Cons.IH [OF rest this] obtain vs where
    vs: "length vs = length bs" "calls s = calls s2 @ concat (map eval_calls vs)" by blast
  have "length (loss # vs) = length (b # bs)
      \<and> calls s = calls st @ concat (map eval_calls (loss # vs))"
    using vs A B Cons.prems(2,3) by (simp add: eval_calls_def)
  then show ?case by blast
qed

lemma pass_call_reads_only:
  "list_all (pass_call m False) ext \<Longrightarrow> list_all reads_only ext"
proof (induction ext)
  case Nil
  then show ?case by simp
next
  case (Cons c ext)
  then show ?case by (cases c) simp_all
qed

lemma machine_of_validation_v1:
  "machine_of (validation_v1 N st acc bs)
   = (machine_of (validation_loop_v1 N (st\<lparr>grad_enabled := False\<rparr>) acc bs))
       \<lparr>grad_enabled := grad_enabled st\<rparr>"
  by (simp add: validation_v1_def no_grad_def split: outcome.splits option.splits)

lemma validation_v1_frame:
  "parameters (machine_of (validation_v1 N st acc bs)) = parameters st
   \<and> optim (machine_of (validation_v1 N st acc bs)) = optim st
   \<and> training (machine_of (validation_v1 N st acc bs)) = training st
   \<and> grad_enabled (machine_of (validation_v1 N st acc bs)) = grad_enabled st
   \<and> list_all reads_only (drop (length (calls st)) (calls (machine_of (validation_v1 N st acc bs))))"
proof -
  from validation_loop_v1_frame [of N "st\<lparr>grad_enabled := False\<rparr>" acc bs]
  obtain ext where
    e: "calls (machine_of (validation_loop_v1 N (st\<lparr>grad_enabled := False\<rparr>) acc bs)) = calls st @ ext"
       "list_all (pass_call (training st) False) ext"
       "parameters (machine_of (validation_loop_v1 N (st\<lparr>grad_enabled := False\<rparr>) acc bs)) = parameters st"
       "optim (machine_of (validation_loop_v1 N (st\<lparr>grad_enabled := False\<rparr>) acc bs)) = optim st"
       "training (machine_of (validation_loop_v1 N (st\<lparr>grad_enabled := False\<rparr>) acc bs)) = training st"
    by auto
  from e pass_call_reads_only [OF e(2)] show ?thesis
    by (simp add: machine_of_validation_v1)
qed

lemma validation_v2_frame:
  "parameters (machine_of (validation_v2 N st bs)) = parameters st
   \<and> optim (machine_of (validation_v2 N st bs)) = optim st
   \<and> grad_enabled (machine_of (validation_v2 N st bs)) = grad_enabled st
   \<and> list_all reads_only (drop (length (calls st)) (calls (machine_of (validation_v2 N st bs))))"
proof -
  let ?st0 = "model_eval (st\<lparr>grad_enabled := False\<rparr>)"
  let ?R = "validation_loop_v2 N ?st0 (Num 0) (Num 0) bs"
  from validation_loop_v2_frame [of N ?st0 "Num 0" "Num 0" bs]
  obtain ext where
    e: "calls (machine_of ?R) = calls st @ [ModelEval] @ ext"
       "list_all (pass_call False False) ext"
       "parameters (machine_of ?R) = parameters st"
       "optim (machine_of ?R) = optim st"
    by (auto simp: model_eval_def)
  note q = pass_call_reads_only [OF e(2)]
  show ?thesis
  proof (cases ?R)
    case (Returned s r)
    with e q show ?thesis
      by (simp add: validation_v2_def no_grad_def model_train_def)
  next
    case (Raised err s)
    with e q show ?thesis
      by (simp add: validation_v2_def no_grad_def)
  qed
qed

text \<open>
  C5. A validation pass, in the first cell as in the dropout cell, hands back every
  parameter as it found it, value, gradient buffer and optimizer entry alike, and the
  optimizer's configuration too, whether it returns or raises. Every library call it makes
  is a call of the model with gradient tracking off, a call of the criterion or a switch
  of the mode: none clears, fills or applies a gradient buffer.
\<close>

theorem validation_leaves_parameters:
  "parameters (machine_of (validation_v1 N st acc bs)) = parameters st
   \<and> optim (machine_of (validation_v1 N st acc bs)) = optim st
   \<and> list_all reads_only (drop (length (calls st)) (calls (machine_of (validation_v1 N st acc bs))))
   \<and> parameters (machine_of (validation_v2 N st bs)) = parameters st
   \<and> optim (machine_of (validation_v2 N st bs)) = optim st
   \<and> list_all reads_only (drop (length (calls st)) (calls (machine_of (validation_v2 N st bs))))"
  using validation_v1_frame [of N st acc bs] validation_v2_frame [of N st bs] by blast

theorem validation_leaves_parameters_witness:
  "parameters (machine_of (validation_v1 scorer_net (scorer_machine (Adam (3 / 1000)) 1) None
       [([[1]], [0])])) = parameters (scorer_machine (Adam (3 / 1000)) 1)
   \<and> parameters (machine_of (validation_v2 scorer_net (scorer_machine (Adam (3 / 1000)) 1)
       [([[1]], [0])])) = parameters (scorer_machine (Adam (3 / 1000)) 1)
   \<and> calls (machine_of (validation_v1 scorer_net (scorer_machine (Adam (3 / 1000)) 1) None
       [([[1]], [0])])) = [Forward True False]
   \<and> calls (machine_of (validation_v2 scorer_net (scorer_machine (Adam (3 / 1000)) 1)
       [([[1]], [0])])) = [ModelEval, Forward False False, Criterion (Num (- 1)), ModelTrain]
   \<and> list_all reads_only [ModelEval, Forward False False, Criterion (Num (- 1)), ModelTrain]"
proof -
  let ?m = "scorer_machine (Adam (3 / 1000)) 1"
  let ?bs = "[([[1 :: real]], [0::nat])]"
  have c1: "calls (machine_of (validation_v1 scorer_net ?m None ?bs)) = [Forward True False]"
    by (simp add: scorer_net_def scorer_machine_def machine_ops pass_ops)
  have c2: "calls (machine_of (validation_v2 scorer_net ?m ?bs))
       = [ModelEval, Forward False False, Criterion (Num (- 1)), ModelTrain]"
    by (simp add: scorer_net_def scorer_machine_def machine_ops pass_ops)
  have c0: "calls ?m = []" by (simp add: scorer_machine_def)
  note inst = validation_leaves_parameters [of scorer_net ?m None ?bs]
  from inst have "list_all reads_only (drop (length (calls ?m))
      (calls (machine_of (validation_v2 scorer_net ?m ?bs))))" by blast
  then have q: "list_all reads_only [ModelEval, Forward False False, Criterion (Num (- 1)), ModelTrain]"
    unfolding c2 c0 by simp
  from inst c1 c2 q show ?thesis by blast
qed

lemma validation_loop_v2_raised:
  assumes "validation_loop_v2 N st tlo acc bs = Raised e s" and "\<not> training st"
    and "\<not> grad_enabled st"
  shows "\<exists>vs v k. length vs < length bs \<and> k \<le> 2
           \<and> calls s = calls st @ concat (map eval_calls vs) @ take k (eval_calls v)
           \<and> \<not> training s"
  using assms
proof (induction bs arbitrary: st tlo acc)
  case Nil
  then show ?case by simp
next
  case (Cons b bs)
  obtain x l where b: "b = (x, l)" by (cases b)
  show ?case
  proof (cases "call_model N st x")
    case (Inl e')
    with Cons.prems b have "s = st" by simp
    with Cons.prems(2) have "length ([] :: scalar list) < length (b # bs) \<and> (0::nat) \<le> 2
           \<and> calls s = calls st @ concat (map eval_calls []) @ take 0 (eval_calls NaN)
           \<and> \<not> training s" by simp
    then show ?thesis by blast
  next
    case (Inr q)
    obtain out s1 where q: "q = (out, s1)" by (cases q)
    note A = call_model_effect [OF Inr [unfolded q]]
    show ?thesis
    proof (cases "criterion s1 out l")
      case (Inl e')
      with Cons.prems b Inr q have "s = s1" by simp
      with A Cons.prems(2,3) have "length ([] :: scalar list) < length (b # bs) \<and> (1::nat) \<le> 2
           \<and> calls s = calls st @ concat (map eval_calls []) @ take 1 (eval_calls NaN)
           \<and> \<not> training s" by (simp add: eval_calls_def)
      then show ?thesis by blast
    next
      case c: (Inr q2)
      obtain loss s2 where q2: "q2 = (loss, s2)" by (cases q2)
      note B = criterion_effect [OF c [unfolded q2]]
      from A B Cons.prems have m2: "\<not> training s2" "\<not> grad_enabled s2" by simp_all
      have c2: "calls s2 = calls st @ eval_calls loss"
        using A B Cons.prems(2,3) by (simp add: eval_calls_def)
      show ?thesis
      proof (cases "batch_accuracy out l")
        case (Inl e')
        with Cons.prems b Inr q c q2 have "s = s2" by simp
        with c2 m2 have "length ([] :: scalar list) < length (b # bs) \<and> (2::nat) \<le> 2
           \<and> calls s = calls st @ concat (map eval_calls []) @ take 2 (eval_calls loss)
           \<and> \<not> training s" by (simp add: eval_calls_def)
        then show ?thesis by blast
      next
        case a: (Inr a)
        with Cons.prems(1) b Inr q c q2
        have rest: "validation_loop_v2 N s2 (sadd tlo loss) (sadd acc a) bs = Raised e s" by simp
        from Cons.IH [OF rest m2] obtain vs v k where
          r: "length vs < length bs" "k \<le> 2"
             "calls s = calls s2 @ concat (map eval_calls vs) @ take k (eval_calls v)"
             "\<not> training s" by blast
        have "length (loss # vs) < length (b # bs) \<and> k \<le> 2
           \<and> calls s = calls st @ concat (map eval_calls (loss # vs)) @ take k (eval_calls v)
           \<and> \<not> training s" using r c2 by simp
        then show ?thesis by blast
      qed
    qed
  qed
qed

text \<open>
  C6, as amended. On every path a validation pass of the dropout cell calls
  \<open>model.eval()\<close> before it touches the first test batch, and every call of the model in
  the pass runs in evaluation mode with gradient tracking off. A pass that returns has
  gone through every batch, has called \<open>model.train()\<close> last and leaves the model in
  training mode. A pass that raises has stopped within the round of some batch, after the
  complete rounds of the batches before it; it has not called \<open>model.train()\<close> and leaves
  the model in evaluation mode. Gradient tracking is as it was before the pass either way.
\<close>

theorem validation_mode_order:
  "(validation_v2 N st bs = Returned s r \<longrightarrow>
     (\<exists>vs. length vs = length bs
          \<and> calls s = calls st @ [ModelEval] @ concat (map eval_calls vs) @ [ModelTrain])
     \<and> training s \<and> grad_enabled s = grad_enabled st)
   \<and> (validation_v2 N st bs = Raised e s \<longrightarrow>
     (\<exists>vs v k. length vs < length bs \<and> k \<le> 2
          \<and> calls s = calls st @ [ModelEval] @ concat (map eval_calls vs) @ take k (eval_calls v))
     \<and> \<not> training s \<and> grad_enabled s = grad_enabled st)"
proof (intro conjI impI)
  let ?st0 = "model_eval (st\<lparr>grad_enabled := False\<rparr>)"
  have mode: "\<not> training ?st0" "\<not> grad_enabled ?st0" by (simp_all add: model_eval_def)
  {
    assume ret: "validation_v2 N st bs = Returned s r"
    from ret obtain s0 where
      loop: "validation_loop_v2 N ?st0 (Num 0) (Num 0) bs = Returned s0 r" and
      s: "s = model_train (s0\<lparr>grad_enabled := grad_enabled st\<rparr>)"
      by (auto simp: validation_v2_def no_grad_def split: outcome.splits)
    from validation_loop_v2_returned [OF loop mode] obtain vs where
      vs: "length vs = length bs" "calls s0 = calls ?st0 @ concat (map eval_calls vs)" by blast
    have "length vs = length bs
          \<and> calls s = calls st @ [ModelEval] @ concat (map eval_calls vs) @ [ModelTrain]"
      using vs s by (simp add: model_eval_def model_train_def)
    then show "\<exists>vs. length vs = length bs
          \<and> calls s = calls st @ [ModelEval] @ concat (map eval_calls vs) @ [ModelTrain]"
      by blast
    show "training s" using s by (simp add: model_train_def)
    show "grad_enabled s = grad_enabled st" using s by (simp add: model_train_def)
  }
  {
    assume rai: "validation_v2 N st bs = Raised e s"
    from rai obtain s0 where
      loop: "validation_loop_v2 N ?st0 (Num 0) (Num 0) bs = Raised e s0" and
      s: "s = s0\<lparr>grad_enabled := grad_enabled st\<rparr>"
      by (auto simp: validation_v2_def no_grad_def split: outcome.splits)
    from validation_loop_v2_raised [OF loop mode] obtain vs v k where
      r: "length vs < length bs" "k \<le> 2"
         "calls s0 = calls ?st0 @ concat (map eval_calls vs) @ take k (eval_calls v)"
         "\<not> training s0" by blast
    have "length vs < length bs \<and> k \<le> 2
          \<and> calls s = calls st @ [ModelEval] @ concat (map eval_calls vs) @ take k (eval_calls v)"
      using r s by (simp add: model_eval_def)
    then show "\<exists>vs v k. length vs < length bs \<and> k \<le> 2
          \<and> calls s = calls st @ [ModelEval] @ concat (map eval_calls vs) @ take k (eval_calls v)"
      by blast
    show "\<not> training s" using r s by simp
    show "grad_enabled s = grad_enabled st" using s by simp
  }
qed

theorem validation_mode_order_witness:
  "returned (validation_v2 scorer_net (scorer_machine (Adam (3 / 1000)) 1) [([[1]], [0])])
   \<and> (\<exists>vs. length vs = 1
         \<and> calls (machine_of (validation_v2 scorer_net (scorer_machine (Adam (3 / 1000)) 1)
              [([[1]], [0])]))
           = [ModelEval] @ concat (map eval_calls vs) @ [ModelTrain])
   \<and> training (machine_of (validation_v2 scorer_net (scorer_machine (Adam (3 / 1000)) 1)
        [([[1]], [0])]))
   \<and> \<not> returned (validation_v2 scorer_net (scorer_machine (Adam (3 / 1000)) 1)
        [([[1]], [0]), ([[1]], [2])])
   \<and> (\<exists>vs v k. length vs < 2 \<and> k \<le> 2
         \<and> calls (machine_of (validation_v2 scorer_net (scorer_machine (Adam (3 / 1000)) 1)
              [([[1]], [0]), ([[1]], [2])]))
           = [ModelEval] @ concat (map eval_calls vs) @ take k (eval_calls v))
   \<and> \<not> training (machine_of (validation_v2 scorer_net (scorer_machine (Adam (3 / 1000)) 1)
        [([[1]], [0]), ([[1]], [2])]))"
proof -
  let ?m = "scorer_machine (Adam (3 / 1000)) 1"
  let ?bs = "[([[1 :: real]], [0::nat])]"
  let ?cs = "[([[1 :: real]], [0::nat]), ([[1]], [2])]"
  have r: "returned (validation_v2 scorer_net ?m ?bs)"
    by (simp add: scorer_net_def scorer_machine_def machine_ops pass_ops)
  then obtain s v where run: "validation_v2 scorer_net ?m ?bs = Returned s v"
    by (cases "validation_v2 scorer_net ?m ?bs") auto
  from validation_mode_order [where N = scorer_net and st = ?m and bs = ?bs and s = s and r = v,
      THEN conjunct1, THEN mp, OF run]
  have "(\<exists>vs. length vs = length ?bs
          \<and> calls s = calls ?m @ [ModelEval] @ concat (map eval_calls vs) @ [ModelTrain])
     \<and> training s" by blast
  then have "(\<exists>vs. length vs = 1
          \<and> calls s = [ModelEval] @ concat (map eval_calls vs) @ [ModelTrain])
     \<and> training s" by (simp add: scorer_machine_def)
  with run have a: "(\<exists>vs. length vs = 1
          \<and> calls (machine_of (validation_v2 scorer_net ?m ?bs))
            = [ModelEval] @ concat (map eval_calls vs) @ [ModelTrain])
     \<and> training (machine_of (validation_v2 scorer_net ?m ?bs))"
    by (simp only: machine_of.simps)
  have nr: "\<not> returned (validation_v2 scorer_net ?m ?cs)"
    by (simp add: scorer_net_def scorer_machine_def machine_ops pass_ops)
  then obtain e s' where stop: "validation_v2 scorer_net ?m ?cs = Raised e s'"
    by (cases "validation_v2 scorer_net ?m ?cs") auto
  from validation_mode_order [where N = scorer_net and st = ?m and bs = ?cs and s = s' and e = e,
      THEN conjunct2, THEN mp, OF stop]
  have "(\<exists>vs v k. length vs < length ?cs \<and> k \<le> 2
          \<and> calls s' = calls ?m @ [ModelEval] @ concat (map eval_calls vs) @ take k (eval_calls v))
     \<and> \<not> training s'" by blast
  then have c: "(\<exists>vs v k. length vs < 2 \<and> k \<le> 2
          \<and> calls s' = [ModelEval] @ concat (map eval_calls vs) @ take k (eval_calls v))
     \<and> \<not> training s'" by (auto simp: scorer_machine_def numeral_2_eq_2)
  have b: "(\<exists>vs v k. length vs < 2 \<and> k \<le> 2
          \<and> calls (machine_of (validation_v2 scorer_net ?m ?cs))
            = [ModelEval] @ concat (map eval_calls vs) @ take k (eval_calls v))
     \<and> \<not> training (machine_of (validation_v2 scorer_net ?m ?cs))"
    unfolding stop machine_of.simps by (rule c)
  from r a nr b show ?thesis by blast
qed

text \<open>
  On an exit by exception the claim fails: the one-weight network has two classes, so the
  label 2 makes the criterion raise inside the loop; \<open>model.train()\<close> is never reached and
  the model, in training mode before the pass, is left in evaluation mode.
\<close>

theorem validation_raise_leaves_eval_mode:
  "validation_v2 scorer_net (scorer_machine (Adam (3 / 1000)) 1) [([[1]], [2])]
   = Raised TargetOutOfBounds
       ((scorer_machine (Adam (3 / 1000)) 1)
          \<lparr>training := False, calls := [ModelEval, Forward False False]\<rparr>)
   \<and> training (scorer_machine (Adam (3 / 1000)) 1)"
  by (simp add: scorer_net_def scorer_machine_def machine_ops pass_ops)

section \<open>Properties of the optimizer step\<close>




subsection \<open>SGD\<close>






subsection \<open>Adam\<close>










subsection \<open>Steps on concrete parameters\<close>

lemma fl32_pow2:
  assumes "- 126 \<le> k" and "k \<le> 127"
  shows "fl32 (2 powi k) = 2 powi k"
proof -
  have lt: "(2::real) powi k < 2 powi (k + 1)" by (intro power_int_strict_increasing) simp_all
  have "fl32_mag (2 powi k) = of_int (round_even (2 powi k / 2 powi (k - 23))) * 2 powi (k - 23)"
    using assms lt by (intro fl32_mag_eval) simp_all
  also have "(2::real) powi k / 2 powi (k - 23) = of_int (2 ^ 23)"
    unfolding pow2_split' [of k] by simp
  also have "of_int (round_even (of_int (2 ^ 23))) * 2 powi (k - 23) = (2::real) powi k"
    unfolding round_even_of_int pow2_split' [of k] by simp
  finally have "fl32_mag (2 powi k) = 2 powi k" .
  moreover have "\<not> (2::real) powi k < 0" by (simp add: not_less)
  ultimately show ?thesis by (simp only: fl32_def if_False)
qed

lemma fl32_fractions:
  "fl32 1 = 1" "fl32 (1 / 8) = 1 / 8" "fl32 (1 / 32) = 1 / 32" "fl32 (1 / 256) = 1 / 256"
  "fl32 (1 / 1024) = 1 / 1024" "fl32 (1 / 8192) = 1 / 8192" "fl32 (1 / 2 ^ 29) = 1 / 2 ^ 29"
  using fl32_pow2 [of 0] fl32_pow2 [of "- 3"] fl32_pow2 [of "- 5"] fl32_pow2 [of "- 8"]
    fl32_pow2 [of "- 10"] fl32_pow2 [of "- 13"] fl32_pow2 [of "- 29"]
  by (simp_all add: power_int_minus_divide)







text \<open>
  The first Adam step of the dropout cell (learning rate \<open>0.003\<close>) on a gradient of 1 takes
  at most \<open>1/256\<close> off the parameter, before the last rounding.
\<close>

lemma adam_fresh_step:
  "(\<exists>q. 0 \<le> q \<and> q \<le> 1 / 256
      \<and> data (adam_update (3 / 1000)
                \<lparr>data = w, grad = Some 1,
                   opt_state = \<lparr>step = 0, exp_avg = 0, exp_avg_sq = 0\<rparr>\<rparr>) = fl32 (w - q))
   \<and> (\<bar>w\<bar> \<le> 1000000 \<longrightarrow>
        list_all in_range (adam_results (3 / 1000)
                \<lparr>data = w, grad = Some 1,
                   opt_state = \<lparr>step = 0, exp_avg = 0, exp_avg_sq = 0\<rparr>\<rparr>))"
proof -
  define m where "m = fl32 (fl32 (fl32 (1 - beta1)))"
  define v where "v = fl32 (fl32 (fl32 (fl32 (1 - beta2))))"
  define S where "S = fl32 (3 / 1000 * sqrt (1 - beta2) / (1 - beta1))"
  define d where "d = fl32 (fl32 (sqrt v) + fl32 eps)"
  define q where "q = fl32 (fl32 (S * m) / d)"
  have dat: "data (adam_update (3 / 1000)
               \<lparr>data = w, grad = Some 1,
                  opt_state = \<lparr>step = 0, exp_avg = 0, exp_avg_sq = 0\<rparr>\<rparr>) = fl32 (w - q)"
    by (simp add: adam_update_def Let_def fl32_zero m_def v_def S_def d_def q_def)
  have "fl32 (1 - beta1) \<le> fl32 (1 / 8)" by (rule fl32_mono) (simp add: beta1_def)
  then have "fl32 (fl32 (1 - beta1)) \<le> fl32 (1 / 8)" unfolding fl32_fractions(2)
    by (rule fl32_mono [of _ "1 / 8", unfolded fl32_fractions(2)])
  then have "m \<le> 1 / 8" unfolding m_def fl32_fractions(2)
    by (rule fl32_mono [of _ "1 / 8", unfolded fl32_fractions(2)])
  have "0 \<le> fl32 (1 - beta1)" by (rule fl32_nonneg) (simp add: beta1_def)
  then have "0 \<le> fl32 (fl32 (1 - beta1))" by (rule fl32_nonneg)
  then have "0 \<le> m" unfolding m_def by (rule fl32_nonneg)
  note up = fl32_mono [of "1 / 1024", unfolded fl32_fractions(5)]
  have "1 / 1024 \<le> fl32 (1 - beta2)" by (rule up) (simp add: beta2_def)
  then have "1 / 1024 \<le> fl32 (fl32 (1 - beta2))" by (rule up)
  then have "1 / 1024 \<le> fl32 (fl32 (fl32 (1 - beta2)))" by (rule up)
  then have "1 / 1024 \<le> v" unfolding v_def by (rule up)
  then have "sqrt (1 / 1024) \<le> sqrt v" by (simp only: real_sqrt_le_iff)
  moreover have "sqrt (1 / 1024) = 1 / 32" by (rule real_sqrt_unique) (simp_all add: power2_eq_square)
  ultimately have "1 / 32 \<le> sqrt v" by simp
  then have "1 / 32 \<le> fl32 (sqrt v)" by (rule fl32_mono [of "1 / 32", unfolded fl32_fractions(3)])
  moreover have "0 \<le> fl32 eps" by (rule fl32_nonneg) (simp add: eps_def)
  ultimately have "1 / 32 \<le> fl32 (sqrt v) + fl32 eps" by simp
  then have "1 / 32 \<le> d" unfolding d_def
    by (rule fl32_mono [of "1 / 32", unfolded fl32_fractions(3)])
  have "sqrt (1 / 1000) \<le> 1 / 31" by (rule real_le_lsqrt) (simp_all add: power2_eq_square)
  then have s: "3 / 1000 * sqrt (1 - beta2) / (1 - beta1) \<le> 1 / 1024"
    by (simp add: beta1_def beta2_def)
  have "0 \<le> 3 / 1000 * sqrt (1 - beta2) / (1 - beta1)" by (simp add: beta1_def beta2_def)
  then have "0 \<le> S" unfolding S_def by (rule fl32_nonneg)
  from s have "S \<le> 1 / 1024" unfolding S_def
    by (rule fl32_mono [of _ "1 / 1024", unfolded fl32_fractions(5)])
  from \<open>0 \<le> S\<close> \<open>0 \<le> m\<close> have "0 \<le> S * m" by (rule mult_nonneg_nonneg)
  then have n0: "0 \<le> fl32 (S * m)" by (rule fl32_nonneg)
  from \<open>S \<le> 1 / 1024\<close> \<open>m \<le> 1 / 8\<close> \<open>0 \<le> S\<close> \<open>0 \<le> m\<close> have "S * m \<le> 1 / 1024 * (1 / 8)"
    by (intro mult_mono) simp_all
  then have "S * m \<le> 1 / 8192" by simp
  then have n1: "fl32 (S * m) \<le> 1 / 8192"
    by (rule fl32_mono [of _ "1 / 8192", unfolded fl32_fractions(6)])
  from n0 n1 \<open>1 / 32 \<le> d\<close> have "fl32 (S * m) / d \<le> (1 / 8192) / (1 / 32)"
    by (intro frac_le) simp_all
  then have "fl32 (S * m) / d \<le> 1 / 256" by simp
  then have q1: "q \<le> 1 / 256" unfolding q_def
    by (rule fl32_mono [of _ "1 / 256", unfolded fl32_fractions(4)])
  from \<open>1 / 32 \<le> d\<close> have "0 \<le> d" by simp
  with n0 have "0 \<le> fl32 (S * m) / d" by (rule divide_nonneg_nonneg)
  then have q0: "0 \<le> q" unfolding q_def by (rule fl32_nonneg)
  have small: "in_range x" if "lo \<le> x" "x \<le> hi" "0 \<le> lo" "hi \<le> 2" for x lo hi :: real
    using that by (simp add: in_range_def)
  have res: "adam_results (3 / 1000)
               \<lparr>data = w, grad = Some 1,
                  opt_state = \<lparr>step = 0, exp_avg = 0, exp_avg_sq = 0\<rparr>\<rparr>
      = [0, fl32 (1 - beta1), fl32 (fl32 (1 - beta1)), 0, fl32 (1 - beta2),
         fl32 (fl32 (1 - beta2)), fl32 (fl32 (fl32 (1 - beta2))), sqrt v,
         fl32 (sqrt v) + fl32 eps, 3 / 1000 * sqrt (1 - beta2) / (1 - beta1), S * m,
         fl32 (S * m) / d, w - q]"
    by (simp add: adam_results_def Let_def fl32_zero m_def v_def S_def d_def q_def)
  note dn = fl32_mono [of _ "1 / 8", unfolded fl32_fractions(2)]
  have "fl32 (1 - beta2) \<le> 1 / 8" by (rule dn) (simp add: beta2_def)
  then have "fl32 (fl32 (1 - beta2)) \<le> 1 / 8" by (rule dn)
  then have "fl32 (fl32 (fl32 (1 - beta2))) \<le> 1 / 8" by (rule dn)
  then have "v \<le> 1 / 8" unfolding v_def by (rule dn)
  then have "v \<le> 1" by simp
  then have "sqrt v \<le> sqrt 1" by (simp only: real_sqrt_le_iff)
  then have r1: "sqrt v \<le> 1" by simp
  then have "fl32 (sqrt v) \<le> 1" by (rule fl32_mono [of _ 1, unfolded fl32_fractions(1)])
  moreover have "fl32 eps \<le> 1"
    by (rule fl32_mono [of _ 1, unfolded fl32_fractions(1)]) (simp add: eps_def)
  ultimately have r2: "fl32 (sqrt v) + fl32 eps \<le> 2" by simp
  have e: "in_range 0" "in_range (fl32 (1 - beta1))" "in_range (fl32 (fl32 (1 - beta1)))"
    "in_range (fl32 (1 - beta2))" "in_range (fl32 (fl32 (1 - beta2)))"
    "in_range (fl32 (fl32 (fl32 (1 - beta2))))" "in_range (sqrt v)"
    "in_range (fl32 (sqrt v) + fl32 eps)" "in_range (3 / 1000 * sqrt (1 - beta2) / (1 - beta1))"
    "in_range (S * m)" "in_range (fl32 (S * m) / d)"
  proof -
    show "in_range 0" by (simp add: in_range_def)
    show "in_range (fl32 (1 - beta1))"
      using \<open>0 \<le> fl32 (1 - beta1)\<close> \<open>fl32 (1 - beta1) \<le> fl32 (1 / 8)\<close>
      by (rule small) (simp_all add: fl32_fractions)
    show "in_range (fl32 (fl32 (1 - beta1)))"
      using \<open>0 \<le> fl32 (fl32 (1 - beta1))\<close> \<open>fl32 (fl32 (1 - beta1)) \<le> fl32 (1 / 8)\<close>
      by (rule small) (simp_all add: fl32_fractions)
    show "in_range (fl32 (1 - beta2))"
      using \<open>1 / 1024 \<le> fl32 (1 - beta2)\<close> \<open>fl32 (1 - beta2) \<le> 1 / 8\<close> by (rule small) simp_all
    show "in_range (fl32 (fl32 (1 - beta2)))"
      using \<open>1 / 1024 \<le> fl32 (fl32 (1 - beta2))\<close> \<open>fl32 (fl32 (1 - beta2)) \<le> 1 / 8\<close>
      by (rule small) simp_all
    show "in_range (fl32 (fl32 (fl32 (1 - beta2))))"
      using \<open>1 / 1024 \<le> fl32 (fl32 (fl32 (1 - beta2)))\<close>
        \<open>fl32 (fl32 (fl32 (1 - beta2))) \<le> 1 / 8\<close>
      by (rule small) simp_all
    show "in_range (sqrt v)"
      using \<open>1 / 32 \<le> sqrt v\<close> r1 by (rule small) simp_all
    show "in_range (fl32 (sqrt v) + fl32 eps)"
      using \<open>1 / 32 \<le> fl32 (sqrt v) + fl32 eps\<close> r2 by (rule small) simp_all
    show "in_range (3 / 1000 * sqrt (1 - beta2) / (1 - beta1))"
      using \<open>0 \<le> 3 / 1000 * sqrt (1 - beta2) / (1 - beta1)\<close> s by (rule small) simp_all
    show "in_range (S * m)"
      using \<open>0 \<le> S * m\<close> \<open>S * m \<le> 1 / 8192\<close> by (rule small) simp_all
    show "in_range (fl32 (S * m) / d)"
      using \<open>0 \<le> fl32 (S * m) / d\<close> \<open>fl32 (S * m) / d \<le> 1 / 256\<close> by (rule small) simp_all
  qed
  have last: "in_range (w - q)" if "\<bar>w\<bar> \<le> 1000000"
    using that q0 q1 by (simp add: in_range_def)
  from e last have "list_all in_range (adam_results (3 / 1000)
               \<lparr>data = w, grad = Some 1,
                  opt_state = \<lparr>step = 0, exp_avg = 0, exp_avg_sq = 0\<rparr>\<rparr>)"
    if "\<bar>w\<bar> \<le> 1000000"
    unfolding res using that by simp
  with q0 q1 dat show ?thesis by blast
qed

lemma scorer_adam_first_step:
  "0 \<le> data (adam_update (3 / 1000)
                \<lparr>data = 1, grad = Some 1,
                   opt_state = \<lparr>step = 0, exp_avg = 0, exp_avg_sq = 0\<rparr>\<rparr>)"
proof -
  from adam_fresh_step [of 1] obtain q where
    q: "q \<le> 1 / 256" "data (adam_update (3 / 1000)
               \<lparr>data = 1, grad = Some 1,
                  opt_state = \<lparr>step = 0, exp_avg = 0, exp_avg_sq = 0\<rparr>\<rparr>) = fl32 (1 - q)"
    by blast
  from q(1) have "0 \<le> fl32 (1 - q)" by (intro fl32_nonneg) simp
  with q(2) show ?thesis by simp
qed




section \<open>Properties of the accuracy\<close>

lemma each_Inl: "each f xs = Inl e \<Longrightarrow> \<exists>x\<in>set xs. f x = Inl e"
  by (induction xs) (auto split: sum.splits)

lemma topk1_row_Inl: "topk1_row r = Inl e \<Longrightarrow> e = IndexOutOfRange"
  by (cases r) simp_all

lemma equals_cases:
  "equals cs ls = Inl SizeMismatch \<or> equals cs ls = Inr (ByteTensor (map2 (=) cs ls))"
  by (simp add: equals_def)

lemma batch_accuracy_not_mean_error: "batch_accuracy log_ps labels \<noteq> Inl MeanNotImplemented"
proof (cases "topk1 (map (map exp) log_ps)")
  case (Inl e)
  from each_Inl [OF Inl [unfolded topk1_def]] topk1_row_Inl have "e = IndexOutOfRange" by blast
  with Inl show ?thesis by (simp add: batch_accuracy_def and_then_def)
next
  case (Inr tops)
  with equals_cases [of "map snd tops" labels] show ?thesis
    by (auto simp: batch_accuracy_def and_then_def)
qed

text \<open>
  C9. Whatever the comparison of the predicted classes with the labels returns, its mean
  raises the error of the byte tensor, and the mean of its conversion to a float tensor
  is a value; the accuracy of a batch is that second mean, so the accuracy computation
  never raises the error of the byte tensor.
\<close>

theorem mean_needs_float_conversion:
  "(equals top_cls labels = Inr eq \<longrightarrow>
      torch_mean eq = Inl MeanNotImplemented \<and> (\<exists>a. torch_mean (type_float eq) = Inr a))
   \<and> (topk1 (map (map exp) log_ps) = Inr tops \<and> equals (map snd tops) labels = Inr eq \<longrightarrow>
        batch_accuracy log_ps labels = torch_mean (type_float eq))
   \<and> batch_accuracy log_ps labels \<noteq> Inl MeanNotImplemented"
  using equals_cases [of top_cls labels] batch_accuracy_not_mean_error [of log_ps labels]
  by (auto simp: batch_accuracy_def and_then_def)

theorem mean_needs_float_conversion_witness:
  "equals [0, 1] [0, 0] = Inr (ByteTensor [True, False])
   \<and> torch_mean (ByteTensor [True, False]) = Inl MeanNotImplemented
   \<and> torch_mean (type_float (ByteTensor [True, False])) = Inr (Num (1 / 2))
   \<and> batch_accuracy [[ln (3 / 4), ln (1 / 4)], [ln (1 / 4), ln (3 / 4)]] [0, 0] = Inr (Num (1 / 2))"
proof -
  let ?lp = "[[ln (3 / 4), ln (1 / 4)], [ln (1 / 4), ln (3 / 4 :: real)]]"
  have e: "equals [0, 1] [0, 0] = Inr (ByteTensor [True, False])"
    by (simp add: equals_def)
  have t: "topk1 (map (map exp) ?lp) = Inr [(3 / 4, 0), (3 / 4, 1)]"
    by (simp add: topk1_def)
  have f: "torch_mean (type_float (ByteTensor [True, False])) = Inr (Num (1 / 2))"
    by (simp add: mean_of_def)
  note inst = mean_needs_float_conversion [of "[0, 1]" "[0, 0]" "ByteTensor [True, False]" ?lp
      "[(3 / 4, 0), (3 / 4, 1)]"]
  from inst e have "torch_mean (ByteTensor [True, False]) = Inl MeanNotImplemented" by blast
  moreover from inst e t have "batch_accuracy ?lp [0, 0] = torch_mean (type_float (ByteTensor [True, False]))"
    by simp
  ultimately show ?thesis using e f by simp
qed

lemma topk1_predicted:
  "topk1 (map (map exp) log_ps) = Inr tops \<Longrightarrow> map snd tops = map predicted log_ps"
  unfolding topk1_def
proof (induction log_ps arbitrary: tops)
  case Nil
  then show ?case by simp
next
  case (Cons r rs)
  then show ?case
    by (auto simp: predicted_def split: sum.splits)
qed

lemma indicator_sum:
  "sum_list (map (\<lambda>b. if b then 1 else 0) (map2 (=) cs ls))
   = real (length (filter (\<lambda>(c, l). c = l) (zip cs ls)))"
  by (induction cs ls rule: list_induct2') simp_all

lemma hits_as_filter:
  "length (filter (\<lambda>(c, l). c = l) (zip (map predicted log_ps) labels)) = hits log_ps labels"
  unfolding hits_def
  by (induction log_ps labels rule: list_induct2') simp_all

lemma hits_le: "hits log_ps labels \<le> length labels"
proof -
  have "hits log_ps labels \<le> length (zip log_ps labels)"
    unfolding hits_def by (rule length_filter_le)
  then show ?thesis by simp
qed

lemma batch_accuracy_value:
  assumes "batch_accuracy log_ps labels = Inr a" and "labels \<noteq> []"
  shows "a = Num (real (hits log_ps labels) / real (length labels))"
proof -
  from assms(1) obtain tops where
    t: "topk1 (map (map exp) log_ps) = Inr tops" and
    len: "length labels = length tops" and
    a: "a = mean_of (map (\<lambda>b. if b then 1 else 0) (map2 (=) (map snd tops) labels))"
    by (auto simp: batch_accuracy_def and_then_def equals_def Let_def split: sum.splits if_splits)
  note p = topk1_predicted [OF t]
  have ne: "map2 (=) (map snd tops) labels \<noteq> []"
    using assms(2) len by (cases tops; cases labels) simp_all
  have l: "length (map2 (=) (map snd tops) labels) = length labels" using len by simp
  from a ne have "a = Num (sum_list (map (\<lambda>b. if b then 1 else 0) (map2 (=) (map snd tops) labels))
                       / real (length (map2 (=) (map snd tops) labels)))"
    by (simp add: mean_of_def)
  then have "a = Num (real (hits log_ps labels) / real (length (map2 (=) (map snd tops) labels)))"
    unfolding indicator_sum p hits_as_filter .
  then show ?thesis by (simp only: l)
qed

lemma call_model_eval:
  assumes "call_model N st x = Inr (out, s)" and "\<not> training st"
  shows "forward_eval N (map data (parameters st)) x = Inr out"
  using assms by (auto simp: call_model_def split: sum.splits)

lemma validation_loop_v2_accuracy:
  assumes "validation_loop_v2 N st tlo (Num a0) bs = Returned s (tlo', acc)"
    and "\<not> training st" and "\<forall>b\<in>set bs. snd b \<noteq> []"
  shows "acc = Num (a0 + (\<Sum>b\<leftarrow>bs. real (correct N (map data (parameters st)) b)
                                   / real (length (snd b))))"
  using assms
proof (induction bs arbitrary: st tlo a0)
  case Nil
  then show ?case by simp
next
  case (Cons b bs)
  obtain x l where b: "b = (x, l)" by (cases b)
  from Cons.prems(1) b obtain out s1 loss s2 a where
    m: "call_model N st x = Inr (out, s1)" and
    c: "criterion s1 out l = Inr (loss, s2)" and
    ba: "batch_accuracy out l = Inr a" and
    rest: "validation_loop_v2 N s2 (sadd tlo loss) (sadd (Num a0) a) bs = Returned s (tlo', acc)"
    by (auto split: sum.splits prod.splits)
  note A = call_model_effect [OF m] and B = criterion_effect [OF c]
  from Cons.prems(3) b have lne: "l \<noteq> []" by simp
  have av: "a = Num (real (hits out l) / real (length l))"
    using ba lne by (rule batch_accuracy_value)
  have cb: "correct N (map data (parameters st)) b = hits out l"
    using call_model_eval [OF m Cons.prems(2)] b by (simp add: correct_def)
  have p2: "parameters s2 = parameters st" and t2: "\<not> training s2"
    using A B Cons.prems(2) by simp_all
  from rest av have rest': "validation_loop_v2 N s2 (sadd tlo loss)
       (Num (a0 + real (hits out l) / real (length l))) bs = Returned s (tlo', acc)"
    by simp
  from Cons.prems(3) have "\<forall>b\<in>set bs. snd b \<noteq> []" by simp
  from Cons.IH [OF rest' t2 this]
  have "acc = Num (a0 + real (hits out l) / real (length l)
           + (\<Sum>b\<leftarrow>bs. real (correct N (map data (parameters st)) b)
                                   / real (length (snd b))))"
    by (simp only: p2)
  then show ?case
    unfolding cb [symmetric] b by (simp add: add.assoc)
qed

lemma sum_list_unit_bound:
  assumes "\<forall>x\<in>set xs. 0 \<le> f x \<and> f x \<le> (1::real)"
  shows "0 \<le> sum_list (map f xs) \<and> sum_list (map f xs) \<le> real (length xs)"
  using assms by (induction xs) auto

lemma sum_list_div_const:
  "sum_list (map (\<lambda>x. real (f x) / k) xs) = real (sum_list (map f xs)) / k"
  by (induction xs) (simp_all add: add_divide_distrib)

lemma sum_list_const_length:
  "\<forall>x\<in>set xs. g x = (k::nat) \<Longrightarrow> sum_list (map g xs) = k * length xs"
  by (induction xs) simp_all

lemma correct_le: "correct N ps b \<le> length (snd b)"
  by (simp add: correct_def hits_le split: sum.splits)

lemma per_batch_Inr:
  assumes "per_batch (Num A) n = Inr r"
  shows "n \<noteq> 0 \<and> r = Num (A / real n)"
  using assms by (cases n) simp_all

lemma reported_accuracy_value:
  assumes "reported_accuracy N st bs = Inr r" and "\<forall>b\<in>set bs. snd b \<noteq> []"
  shows "\<exists>a. r = Num a \<and> 0 \<le> a \<and> a \<le> 1
           \<and> a = (\<Sum>b\<leftarrow>bs. real (correct N (map data (parameters st)) b) / real (length (snd b)))
                 / real (length bs)
           \<and> ((\<forall>b\<in>set bs. length (snd b) = k) \<longrightarrow>
                 a = real (\<Sum>b\<leftarrow>bs. correct N (map data (parameters st)) b)
                     / real (\<Sum>b\<leftarrow>bs. length (snd b)))"
proof -
  let ?ps = "map data (parameters st)"
  let ?f = "\<lambda>b. real (correct N ?ps b) / real (length (snd b))"
  let ?A = "\<Sum>b\<leftarrow>bs. ?f b"
  let ?st0 = "model_eval (st\<lparr>grad_enabled := False\<rparr>)"
  from assms(1) obtain s tlo acc where
    v: "validation_v2 N st bs = Returned s (tlo, acc)" and
    pb: "per_batch acc (length bs) = Inr r"
    by (auto simp: reported_accuracy_def split: outcome.splits prod.splits)
  from v obtain s0 where
    loop: "validation_loop_v2 N ?st0 (Num 0) (Num 0) bs = Returned s0 (tlo, acc)"
    by (auto simp: validation_v2_def no_grad_def split: outcome.splits)
  have m: "\<not> training ?st0" and p: "parameters ?st0 = parameters st"
    by (simp_all add: model_eval_def)
  from validation_loop_v2_accuracy [OF loop m assms(2)] have acc: "acc = Num ?A"
    by (simp add: p)
  from per_batch_Inr [OF pb [unfolded acc]] have n: "length bs \<noteq> 0" and r: "r = Num (?A / real (length bs))"
    by simp_all
  have unit: "\<forall>b\<in>set bs. 0 \<le> ?f b \<and> ?f b \<le> 1"
  proof
    fix b assume "b \<in> set bs"
    with assms(2) have "0 < length (snd b)" by simp
    with correct_le [of N ?ps b] show "0 \<le> ?f b \<and> ?f b \<le> 1" by simp
  qed
  from sum_list_unit_bound [OF unit] have bound: "0 \<le> ?A" "?A \<le> real (length bs)"
    by simp_all
  from bound n have lo: "0 \<le> ?A / real (length bs)" by simp
  from bound n have hi: "?A / real (length bs) \<le> 1" by simp
  have eq: "?A / real (length bs)
            = real (\<Sum>b\<leftarrow>bs. correct N ?ps b) / real (\<Sum>b\<leftarrow>bs. length (snd b))"
    if k: "\<forall>b\<in>set bs. length (snd b) = k"
  proof -
    have "?A = (\<Sum>b\<leftarrow>bs. real (correct N ?ps b) / real k)"
      using k by (intro arg_cong [where f = sum_list] map_cong) simp_all
    also have "\<dots> = real (\<Sum>b\<leftarrow>bs. correct N ?ps b) / real k"
      by (rule sum_list_div_const)
    finally have A: "?A = real (\<Sum>b\<leftarrow>bs. correct N ?ps b) / real k" .
    have "(\<Sum>b\<leftarrow>bs. length (snd b)) = k * length bs"
      using k by (rule sum_list_const_length)
    with A show ?thesis by simp
  qed
  from r lo hi eq show ?thesis by blast
qed

lemma epoch_v2_accuracy:
  assumes "epoch_v2 N st0 trainloader bs = Returned s' (train_l, test_l, r)"
  shows "\<exists>st rl. train_loop N st0 (Num 0) trainloader = Returned st rl
             \<and> reported_accuracy N st bs = Inr r"
  using assms
  by (auto simp: epoch_v2_def reported_accuracy_def split: outcome.splits sum.splits prod.splits)

lemma batch_accuracy_unit:
  assumes "batch_accuracy log_ps labels = Inr acc" and "labels \<noteq> []"
  shows "\<exists>a. acc = Num a \<and> 0 \<le> a \<and> a \<le> 1
           \<and> a = real (hits log_ps labels) / real (length labels)"
proof -
  from assms(2) have "0 < length labels" by simp
  with hits_le [of log_ps labels]
  have "0 \<le> real (hits log_ps labels) / real (length labels)"
       "real (hits log_ps labels) / real (length labels) \<le> 1"
    by simp_all
  with batch_accuracy_value [OF assms] show ?thesis by blast
qed

text \<open>
  C1, as amended. The test accuracy an epoch of the dropout cell prints is the one
  \<open>reported_accuracy\<close> gives for the machine its training left. When no test batch is empty
  it is a number between 0 and 1: the mean, over the batches, of each batch's share of
  samples whose predicted class is the label. It is the number of such samples of the
  whole test set divided by the number of samples when all batches have the same size;
  with batches of different sizes it need not be (see the counterexample below). The
  accuracy of a single batch always is that quotient for the batch.
\<close>

theorem reported_accuracy_is_mean_of_batch_means:
  "(epoch_v2 N st0 trainloader bs = Returned s' (train_l, test_l, r) \<longrightarrow>
      (\<exists>st rl. train_loop N st0 (Num 0) trainloader = Returned st rl
             \<and> reported_accuracy N st bs = Inr r))
   \<and> (reported_accuracy N st bs = Inr r \<and> (\<forall>b\<in>set bs. snd b \<noteq> []) \<longrightarrow>
        (\<exists>a. r = Num a \<and> 0 \<le> a \<and> a \<le> 1
           \<and> a = (\<Sum>b\<leftarrow>bs. real (correct N (map data (parameters st)) b) / real (length (snd b)))
                 / real (length bs)
           \<and> ((\<forall>b\<in>set bs. length (snd b) = k) \<longrightarrow>
                 a = real (\<Sum>b\<leftarrow>bs. correct N (map data (parameters st)) b)
                     / real (\<Sum>b\<leftarrow>bs. length (snd b)))))
   \<and> (batch_accuracy log_ps labels = Inr acc \<and> labels \<noteq> [] \<longrightarrow>
        (\<exists>a. acc = Num a \<and> 0 \<le> a \<and> a \<le> 1
           \<and> a = real (hits log_ps labels) / real (length labels)))"
  using epoch_v2_accuracy [of N st0 trainloader bs s' train_l test_l r]
    reported_accuracy_value [of N st bs r k] batch_accuracy_unit [of log_ps labels acc]
  by blast

theorem reported_accuracy_is_mean_of_batch_means_witness:
  "returned (epoch_v2 scorer_net (scorer_machine (Adam (3 / 1000)) 1) [([[- 1]], [0])]
     [([[1], [1]], [0, 1]), ([[1], [1]], [0, 0])])
   \<and> reported_accuracy scorer_net (scorer_machine (Adam (3 / 1000)) 1)
     [([[1], [1]], [0, 1]), ([[1], [1]], [0, 0])] = Inr (Num (3 / 4))
   \<and> real (\<Sum>b\<leftarrow>[([[1], [1]], [0, 1]), ([[1], [1]], [0, 0])].
              correct scorer_net (map data (parameters (scorer_machine (Adam (3 / 1000)) 1))) b)
     / real (\<Sum>b\<leftarrow>[([[1 :: real], [1]], [0, 1::nat]), ([[1], [1]], [0, 0])]. length (snd b))
     = 3 / 4
   \<and> batch_accuracy [[1, 0], [1, 0]] [0, 1] = Inr (Num (1 / 2))
   \<and> real (hits [[1, 0], [1, 0]] [0, 1]) / real (length [0::nat, 1]) = 1 / 2"
proof -
  let ?m = "scorer_machine (Adam (3 / 1000)) 1"
  let ?tr = "[([[- 1 :: real]], [0::nat])]"
  let ?bs = "[([[1 :: real], [1]], [0, 1::nat]), ([[1], [1]], [0, 0])]"
  let ?lp = "[[1, 0], [1, 0 :: real]]"
  have ep: "returned (epoch_v2 scorer_net ?m ?tr ?bs)"
    by (simp add: epoch_v2_def scorer_net_def scorer_machine_def machine_ops pass_ops beta1_def
        beta2_def eps_def)
  then obtain s' res where "epoch_v2 scorer_net ?m ?tr ?bs = Returned s' res"
    by (cases "epoch_v2 scorer_net ?m ?tr ?bs") auto
  then obtain a b c where e: "epoch_v2 scorer_net ?m ?tr ?bs = Returned s' (a, b, c)"
    by (cases res) auto
  from reported_accuracy_is_mean_of_batch_means [where N = scorer_net and ?st0.0 = ?m
      and trainloader = ?tr and bs = ?bs and s' = s' and train_l = a and test_l = b and r = c,
      THEN conjunct1, THEN mp, OF e]
  have "\<exists>st rl. train_loop scorer_net ?m (Num 0) ?tr = Returned st rl" by blast
  have run: "reported_accuracy scorer_net ?m ?bs = Inr (Num (3 / 4))"
    by (simp add: scorer_net_def scorer_machine_def machine_ops pass_ops reported_accuracy_def correct_def hits_def predicted_def)
  have ne: "\<forall>b\<in>set ?bs. snd b \<noteq> []" by simp
  have k: "\<forall>b\<in>set ?bs. length (snd b) = 2" by simp
  from reported_accuracy_is_mean_of_batch_means [where N = scorer_net and st = ?m and bs = ?bs
      and r = "Num (3 / 4)" and k = 2, THEN conjunct2, THEN conjunct1, THEN mp, OF conjI [OF run ne]] k
  have q: "3 / 4 = real (\<Sum>b\<leftarrow>?bs. correct scorer_net (map data (parameters ?m)) b)
                 / real (\<Sum>b\<leftarrow>?bs. length (snd b))"
    by blast
  have one: "batch_accuracy ?lp [0, 1] = Inr (Num (1 / 2))"
    by (simp add: pass_ops mean_of_def)
  have ne1: "[0::nat, 1] \<noteq> []" by simp
  from reported_accuracy_is_mean_of_batch_means [where log_ps = ?lp and labels = "[0, 1]"
      and acc = "Num (1 / 2)", THEN conjunct2, THEN conjunct2, THEN mp, OF conjI [OF one ne1]]
  have h: "1 / 2 = real (hits ?lp [0, 1]) / real (length [0::nat, 1])"
    by blast
  from ep run q one h show ?thesis by simp
qed

text \<open>
  With a last batch smaller than the others the printed accuracy is not the share of
  correctly classified samples: with weight 1 every sample here is given class 0, both
  samples of the first batch and not the one of the second are labelled 0, so two of
  three samples are classified correctly, and the cell prints one half.
\<close>

theorem mean_of_batch_means_is_not_overall_mean:
  "reported_accuracy scorer_net (scorer_machine (Adam (3 / 1000)) 1)
     [([[1], [1]], [0, 0]), ([[1]], [1])] = Inr (Num (1 / 2))
   \<and> real (correct scorer_net (map data (parameters (scorer_machine (Adam (3 / 1000)) 1)))
              ([[1], [1]], [0, 0])
            + correct scorer_net (map data (parameters (scorer_machine (Adam (3 / 1000)) 1)))
              ([[1]], [1]))
     / real (length (snd ([[1 :: real], [1]], [0::nat, 0])) + length (snd ([[1 :: real]], [1::nat])))
     = 2 / 3"
  by (simp add: scorer_net_def scorer_machine_def machine_ops pass_ops reported_accuracy_def correct_def hits_def predicted_def)

text \<open>
  C2, on the first validation cell. The accuracy its \<open>print\<close> shows after the loop is the
  accuracy of the last test batch alone. After one training batch the one-weight network
  gives class 0 to every test sample here; with a first test batch of two samples
  labelled 1 and a second of two labelled 0 the cell prints 1, where none of the first
  and both of the second batch are classified correctly and the mean over both batches,
  which the dropout cell reports on the same input, is one half.
\<close>

theorem first_validation_loop_reports_last_batch:
  "epoch_v1 scorer_net (scorer_machine (Adam (3 / 1000)) 1) None [([[- 1]], [0])]
     [([[1], [1]], [1, 1]), ([[1], [1]], [0, 0])]
   = Returned (machine_of (epoch_v1 scorer_net (scorer_machine (Adam (3 / 1000)) 1) None
        [([[- 1]], [0])] [([[1], [1]], [1, 1]), ([[1], [1]], [0, 0])])) (Num 1)
   \<and> reported_accuracy scorer_net (scorer_machine (Adam (3 / 1000)) 1)
        [([[1], [1]], [1, 1]), ([[1], [1]], [0, 0])] = Inr (Num (1 / 2))
   \<and> correct scorer_net (map data (parameters (scorer_machine (Adam (3 / 1000)) 1)))
        ([[1], [1]], [1, 1]) = 0
   \<and> correct scorer_net (map data (parameters (scorer_machine (Adam (3 / 1000)) 1)))
        ([[1], [1]], [0, 0]) = 2"
  by (simp add: epoch_v1_def scorer_net_def scorer_machine_def machine_ops pass_ops
      reported_accuracy_def correct_def hits_def predicted_def
      scorer_adam_first_step [unfolded not_less [symmetric]])

end

